theory Spec2Isabelle
  imports Complex_Main "HOL-Library.Word"
begin

section \<open>The segment query interface (segcore/SegmentInterface.cpp)\<close>

text \<open>
  A shallow embedding of \<^verbatim>\<open>SegmentInternalInterface\<close>: the visibility filter
  (\<^verbatim>\<open>timestamp_filter\<close>, dense and sparse), the field-size estimator
  (\<^verbatim>\<open>get_field_avg_size\<close>, \<^verbatim>\<open>set_field_avg_size\<close>), \<^verbatim>\<open>Retrieve\<close> with its size budget,
  \<^verbatim>\<open>get_real_count\<close>, \<^verbatim>\<open>FillPrimaryKeys\<close> and \<^verbatim>\<open>check_metric_type\<close>.

  Exceptions and failed assertions are values of the type \<open>error\<close>. A read outside an
  array, which C++ leaves undefined, is the error \<open>OutOfBounds\<close>; an integer division
  by zero is \<open>DivideByZero\<close>. Virtual methods of the segment (\<^verbatim>\<open>get_schema\<close>,
  \<^verbatim>\<open>get_timestamps\<close>, \<^verbatim>\<open>bulk_subscript\<close>) are fields of the record \<open>Segment\<close>;
  helpers declared in headers that are not part of the source file are fields of the
  record \<open>Externals\<close>, or definitions marked as modelled from the specification.
\<close>

subsection \<open>Errors\<close>

datatype error =
    AssertFailed string
  | RetrieveError
  | FieldIDInvalid
  | DataTypeInvalid
  | MetricTypeNotMatch
  | OutOfBounds
  | DivideByZero

subsection \<open>Machine integers\<close>

text \<open>
  \<^verbatim>\<open>int\<close> is 32 bits wide, \<^verbatim>\<open>int64_t\<close> and \<^verbatim>\<open>size_t\<close> are 64 bits wide. Values are
  integers of HOL; each conversion between the C++ types is written out as the
  reduction modulo \<open>2^32\<close> or \<open>2^64\<close> it performs.
\<close>

definition to_int32 :: "int \<Rightarrow> int" where
  "to_int32 x = (x + 2147483648) mod 4294967296 - 2147483648"

definition to_int64 :: "int \<Rightarrow> int" where
  "to_int64 x = (x + 9223372036854775808) mod 18446744073709551616 - 9223372036854775808"

definition to_uint64 :: "int \<Rightarrow> int" where
  "to_uint64 x = x mod 18446744073709551616"

definition to_size_t :: "int \<Rightarrow> nat" where
  "to_size_t x = nat (x mod 18446744073709551616)"

definition INT64_MAX :: int where
  "INT64_MAX = 9223372036854775807"

text \<open>Integer division of C++ truncates towards zero.\<close>

definition cpp_div :: "int \<Rightarrow> int \<Rightarrow> int" where
  "cpp_div a b = sgn a * sgn b * (\<bar>a\<bar> div \<bar>b\<bar>)"

subsection \<open>Timestamps and the visibility filter\<close>

type_synonym Timestamp = "64 word"

definition MAX_TIMESTAMP :: Timestamp where
  "MAX_TIMESTAMP = - 1"

text \<open>
  \<^verbatim>\<open>timestamps[i]\<close>: the index is signed (\<^verbatim>\<open>cnt - 1\<close> is \<open>-1\<close> for an empty bitset); a
  read outside the array has no value.
\<close>

definition timestamps_at :: "Timestamp list \<Rightarrow> int \<Rightarrow> Timestamp option" where
  "timestamps_at timestamps i =
     (if 0 \<le> i \<and> i < int (length timestamps) then Some (timestamps ! nat i) else None)"

text \<open>
  Modelled from the spec: \<^verbatim>\<open>upper_bound\<close> is declared in Utils.h, which is not part
  of the source file. The specification says that the dense filter "binary-searches the
  timestamp array for the first offset whose timestamp exceeds the snapshot"; this is
  that binary search on the half-open range from \<open>lo\<close> to \<open>hi\<close>.
\<close>

function upper_bound :: "Timestamp list \<Rightarrow> nat \<Rightarrow> nat \<Rightarrow> Timestamp \<Rightarrow> nat" where
  "upper_bound timestamps lo hi v =
     (if lo < hi then
        (if timestamps ! (lo + (hi - lo) div 2) \<le> v
         then upper_bound timestamps (Suc (lo + (hi - lo) div 2)) hi v
         else upper_bound timestamps lo (lo + (hi - lo) div 2) v)
      else lo)"
  by pat_completeness auto
termination
  by (relation "measure (\<lambda>(timestamps, lo, hi, v). hi - lo)") auto

declare upper_bound.simps [simp del]

text \<open>
  The bitset is \<^verbatim>\<open>boost::dynamic_bitset\<close>: \<^verbatim>\<open>find_next(pos)\<close> is the lowest index
  above \<open>pos\<close> whose bit is set, and \<^verbatim>\<open>npos\<close> (the largest \<^verbatim>\<open>size_t\<close>) when there
  is none.
\<close>

definition npos :: nat where
  "npos = 18446744073709551615"

definition find_next :: "bool list \<Rightarrow> nat \<Rightarrow> nat" where
  "find_next bitset pos =
     (case List.find (\<lambda>i. bitset ! i) [Suc pos ..< length bitset] of
        None \<Rightarrow> npos
      | Some i \<Rightarrow> i)"

text \<open>
  The loop of the dense filter,
  \<^verbatim>\<open>for (int offset = pilot; offset < cnt; offset = bitset.find_next(offset))\<close>.
  The loop variable is an \<^verbatim>\<open>int\<close>: every value stored in it goes through \<open>to_int32\<close>,
  and every use of it as an index or in the comparison with \<^verbatim>\<open>cnt\<close> (a \<^verbatim>\<open>size_t\<close>)
  goes through \<open>to_size_t\<close>. With these conversions the loop need not terminate on a
  bitset of more than \<open>2^32\<close> bits, so the result is an option: \<open>None\<close> is a loop that
  never returns.
\<close>

partial_function (option) filter_loop :: "bool list \<Rightarrow> int \<Rightarrow> bool list option" where
  "filter_loop bitset offset =
     (if to_size_t offset < length bitset then
        (if to_size_t offset = npos then Some bitset
         else filter_loop (bitset[to_size_t offset := False])
                (to_int32 (int (find_next (bitset[to_size_t offset := False]) (to_size_t offset)))))
      else Some bitset)"

text \<open>
  \<^verbatim>\<open>timestamp_filter(BitsetType& bitset, Timestamp timestamp)\<close>, the dense form. The
  first argument is the value of \<^verbatim>\<open>get_timestamps()\<close>. The result is the bitset after
  the call.
\<close>

definition timestamp_filter_dense ::
  "Timestamp list \<Rightarrow> bool list \<Rightarrow> Timestamp \<Rightarrow> (error + bool list) option" where
  "timestamp_filter_dense timestamps bitset timestamp =
     (case timestamps_at timestamps (int (length bitset) - 1) of
        None \<Rightarrow> Some (Inl OutOfBounds)
      | Some t \<Rightarrow>
          if t \<le> timestamp then Some (Inr bitset)
          else map_option Inr
                 (filter_loop bitset
                    (to_int32 (int (upper_bound timestamps 0 (length bitset) timestamp)))))"

text \<open>
  The loop of the sparse form: a point query per offset. \<^verbatim>\<open>bitset.set(offset, true)\<close>
  outside the bitset is an out-of-bounds access.
\<close>

fun point_filter ::
  "Timestamp list \<Rightarrow> Timestamp \<Rightarrow> bool list \<Rightarrow> int list \<Rightarrow> error + bool list" where
  "point_filter timestamps timestamp bitset [] = Inr bitset"
| "point_filter timestamps timestamp bitset (offset # offsets) =
     (case timestamps_at timestamps offset of
        None \<Rightarrow> Inl OutOfBounds
      | Some t \<Rightarrow>
          if timestamp < t then
            (if nat offset < length bitset
             then point_filter timestamps timestamp (bitset[nat offset := True]) offsets
             else Inl OutOfBounds)
          else point_filter timestamps timestamp bitset offsets)"

text \<open>
  \<^verbatim>\<open>timestamp_filter(BitsetType& bitset, const std::vector<int64_t>& offsets,
  Timestamp timestamp)\<close>, the sparse form.
\<close>

definition timestamp_filter_sparse ::
  "Timestamp list \<Rightarrow> bool list \<Rightarrow> int list \<Rightarrow> Timestamp \<Rightarrow> error + bool list" where
  "timestamp_filter_sparse timestamps bitset offsets timestamp =
     (case timestamps_at timestamps (int (length bitset) - 1) of
        None \<Rightarrow> Inl OutOfBounds
      | Some t \<Rightarrow>
          if t \<le> timestamp then Inr bitset
          else point_filter timestamps timestamp bitset offsets)"

subsection \<open>Schema, columns and the segment\<close>

type_synonym FieldId = int

text \<open>The data types of milvus (Types.h); the source file names INT64, VARCHAR and ARRAY.\<close>

datatype DataType =
    NONE | BOOL | INT8 | INT16 | INT32 | INT64 | FLOAT | DOUBLE
  | STRING | VARCHAR | ARRAY | JSON
  | VECTOR_BINARY | VECTOR_FLOAT | VECTOR_FLOAT16

record FieldMeta =
  get_data_type :: DataType
  get_element_type :: DataType
  get_sizeof :: int

record Schema =
  field_metas :: "FieldId \<rightharpoonup> FieldMeta"
  get_primary_field_id :: "FieldId option"

text \<open>
  Modelled from the spec: \<^verbatim>\<open>Schema::operator[]\<close> is declared in Schema.h, which is not
  part of the source file. The specification describes the schema as the lookup from a
  field id to its metadata; a field id without metadata is reported as a failed
  assertion.
\<close>

definition schema_at :: "Schema \<Rightarrow> FieldId \<Rightarrow> error + FieldMeta" where
  "schema_at schema field_id =
     (case field_metas schema field_id of
        None \<Rightarrow> Inl (AssertFailed ''field id not found in schema'')
      | Some field_meta \<Rightarrow> Inr field_meta)"

text \<open>
  A column (\<^verbatim>\<open>DataArray\<close>, a protobuf message): its type, its field id and one of a
  scalar or a vector payload. Of the scalar payloads the source file reads
  \<^verbatim>\<open>long_data\<close>, \<^verbatim>\<open>string_data\<close> and \<^verbatim>\<open>array_data\<close>.
\<close>

datatype ScalarField =
    NoScalarData
  | LongData "int list"
  | StringData "string list"
  | ArrayData "ScalarField list" DataType
  | OtherScalarData

datatype FieldContent = NoContent | Scalars ScalarField | Vectors

record DataArray =
  col_type :: DataType
  field_id :: FieldId
  field :: FieldContent

definition long_data :: "DataArray \<Rightarrow> int list" where
  "long_data col = (case field col of Scalars (LongData xs) \<Rightarrow> xs | _ \<Rightarrow> [])"

definition string_data :: "DataArray \<Rightarrow> string list" where
  "string_data col = (case field col of Scalars (StringData xs) \<Rightarrow> xs | _ \<Rightarrow> [])"

text \<open>
  \<^verbatim>\<open>col->mutable_scalars()->mutable_array_data()->set_element_type(t)\<close>: a protobuf
  \<^verbatim>\<open>mutable_\<close> accessor keeps the member of the oneof that is set and otherwise replaces
  it by an empty one.
\<close>

definition set_element_type :: "DataArray \<Rightarrow> DataType \<Rightarrow> DataArray" where
  "set_element_type col t =
     col\<lparr>field :=
       (case field col of
          Scalars (ArrayData xs _) \<Rightarrow> Scalars (ArrayData xs t)
        | _ \<Rightarrow> Scalars (ArrayData [] t))\<rparr>"

datatype SystemFieldType = RowId | Timestamp

text \<open>
  What the source file uses from headers that are not part of it: the system property
  table (SystemProperty.h), the ids of the two system fields (Types.h) and the test for a
  variable-length data type (Types.h).
\<close>

record Externals =
  IsSystem :: "FieldId \<Rightarrow> bool"
  GetSystemFieldType :: "FieldId \<Rightarrow> SystemFieldType"
  TimestampFieldID :: FieldId
  RowFieldID :: FieldId
  datatype_is_variable :: "DataType \<Rightarrow> bool"

text \<open>
  The state of a segment and its virtual methods. \<open>variable_fields_avg_size\<close> maps a
  variable-length field to the pair (rows observed, running average size). Member names
  are the source's without the trailing underscore, which a constant of HOL cannot
  have.
\<close>

record Segment =
  get_schema :: Schema
  get_timestamps :: "Timestamp list"
  variable_fields_avg_size :: "FieldId \<rightharpoonup> int \<times> int"
  bulk_subscript :: "FieldId \<Rightarrow> int list \<Rightarrow> DataArray"
  bulk_subscript_system :: "SystemFieldType \<Rightarrow> int list \<Rightarrow> int list"

subsection \<open>The field-size estimator\<close>

definition get_field_avg_size :: "Externals \<Rightarrow> Segment \<Rightarrow> FieldId \<Rightarrow> error + int" where
  "get_field_avg_size ext seg fid =
     (if \<not> 0 \<le> fid then
        Inl (AssertFailed ''invalid field id, should be greater than or equal to 0'')
      else if IsSystem ext fid then
        (if fid = TimestampFieldID ext \<or> fid = RowFieldID ext then Inr 8
         else Inl FieldIDInvalid)
      else
        (case schema_at (get_schema seg) fid of
           Inl e \<Rightarrow> Inl e
         | Inr field_meta \<Rightarrow>
             if datatype_is_variable ext (get_data_type field_meta) then
               (case variable_fields_avg_size seg fid of
                  None \<Rightarrow> Inr 0
                | Some field_info \<Rightarrow> Inr (snd field_info))
             else Inr (get_sizeof field_meta)))"

text \<open>
  \<^verbatim>\<open>set_field_avg_size\<close>. The arithmetic is that of \<^verbatim>\<open>int64_t\<close>; where C++ leaves a
  signed overflow undefined the model takes the two's complement result.
\<close>

definition set_field_avg_size ::
  "Externals \<Rightarrow> Segment \<Rightarrow> FieldId \<Rightarrow> int \<Rightarrow> int \<Rightarrow> error + Segment" where
  "set_field_avg_size ext seg fid num_rows field_size =
     (if \<not> 0 \<le> fid then
        Inl (AssertFailed ''invalid field id, should be greater than or equal to 0'')
      else
        (case schema_at (get_schema seg) fid of
           Inl e \<Rightarrow> Inl e
         | Inr field_meta \<Rightarrow>
             if datatype_is_variable ext (get_data_type field_meta) then
               (if \<not> 0 < num_rows then
                  Inl (AssertFailed ''The num rows of field data should be greater than 0'')
                else
                  (let field_info =
                         (case variable_fields_avg_size seg fid of
                            None \<Rightarrow> (0, 0)
                          | Some info \<Rightarrow> info);
                       sz = to_int64 (to_int64 (fst field_info * snd field_info) + field_size);
                       first = to_int64 (fst field_info + num_rows)
                   in if first = 0 then Inl DivideByZero
                      else Inr (seg\<lparr>variable_fields_avg_size :=
                             (variable_fields_avg_size seg)
                               (fid \<mapsto> (first, to_int64 (cpp_div sz first)))\<rparr>)))
             else Inr seg))"

text \<open>A sequence of batches \<open>(num_rows, field_size)\<close> observed for one field, in order.\<close>

fun observe_batches ::
  "Externals \<Rightarrow> Segment \<Rightarrow> FieldId \<Rightarrow> (int \<times> int) list \<Rightarrow> error + Segment" where
  "observe_batches ext seg fid [] = Inr seg"
| "observe_batches ext seg fid (b # batches) =
     (case set_field_avg_size ext seg fid (fst b) (snd b) of
        Inl e \<Rightarrow> Inl e
      | Inr seg' \<Rightarrow> observe_batches ext seg' fid batches)"

subsection \<open>Retrieve\<close>

text \<open>
  A retrieve plan. The filter expression of the plan node is compiled and evaluated
  outside the source file; here it is the predicate on row offsets that it denotes.
  \<open>retrieve_plan_node\<close> is the member \<^verbatim>\<open>plan_node_\<close> of \<^verbatim>\<open>RetrievePlan\<close>.
\<close>

record RetrievePlanNode =
  predicate :: "(nat \<Rightarrow> bool) option"
  is_count :: bool

record RetrievePlan =
  schema :: Schema
  retrieve_plan_node :: RetrievePlanNode
  field_ids :: "FieldId list"

text \<open>What the plan visitor returns (\<^verbatim>\<open>RetrieveResult\<close>).\<close>

record RetrieveResult =
  result_offsets :: "int list"
  field_data :: "DataArray list"

text \<open>
  The plan visitor (\<^verbatim>\<open>ExecPlanNodeVisitor::get_retrieve_result\<close>) is outside the source
  file: it is a parameter of \<open>Retrieve\<close>.
\<close>

type_synonym Visitor = "Segment \<Rightarrow> Timestamp \<Rightarrow> RetrievePlanNode \<Rightarrow> error + RetrieveResult"

text \<open>The result message (\<^verbatim>\<open>proto::segcore::RetrieveResults\<close>).\<close>

datatype IDs = IdNotSet | IntId "int list" | StrId "string list"

record RetrieveResults =
  ids :: "IDs option"
  offset :: "int list"
  fields_data :: "DataArray list"

definition add_int_ids :: "IDs option \<Rightarrow> int list \<Rightarrow> IDs option" where
  "add_int_ids i xs = (case i of Some (IntId ys) \<Rightarrow> Some (IntId (ys @ xs)) | _ \<Rightarrow> Some (IntId xs))"

definition add_str_ids :: "IDs option \<Rightarrow> string list \<Rightarrow> IDs option" where
  "add_str_ids i xs = (case i of Some (StrId ys) \<Rightarrow> Some (StrId (ys @ xs)) | _ \<Rightarrow> Some (StrId xs))"

text \<open>
  The budget loop (lines 93 to 96):
  \<^verbatim>\<open>output_data_size += get_field_avg_size(field_id) * result_rows\<close>, where
  \<^verbatim>\<open>output_data_size\<close> is an \<^verbatim>\<open>int64_t\<close> and \<^verbatim>\<open>result_rows\<close> a \<^verbatim>\<open>size_t\<close>: the product
  and the sum are computed in \<^verbatim>\<open>size_t\<close> and the sum is converted back.
\<close>

fun sum_field_sizes ::
  "Externals \<Rightarrow> Segment \<Rightarrow> nat \<Rightarrow> FieldId list \<Rightarrow> int \<Rightarrow> error + int" where
  "sum_field_sizes ext seg result_rows [] output_data_size = Inr output_data_size"
| "sum_field_sizes ext seg result_rows (fid # fids) output_data_size =
     (case get_field_avg_size ext seg fid of
        Inl e \<Rightarrow> Inl e
      | Inr avg \<Rightarrow>
          sum_field_sizes ext seg result_rows fids
            (to_int64 (to_uint64 (to_uint64 output_data_size +
                                  to_uint64 (to_uint64 avg * int result_rows)))))"

text \<open>Every call of \<^verbatim>\<open>bulk_subscript\<close> that \<open>Retrieve\<close> makes is recorded, in order.\<close>

datatype bulk_call = BulkField FieldId "int list" | BulkSystem SystemFieldType "int list"

text \<open>The loop over the requested fields (lines 116 to 175).\<close>

fun fill_fields ::
  "Externals \<Rightarrow> Segment \<Rightarrow> RetrievePlan \<Rightarrow> int list \<Rightarrow> FieldId list \<Rightarrow>
   RetrieveResults \<Rightarrow> bulk_call list \<Rightarrow> (error + RetrieveResults) \<times> bulk_call list" where
  "fill_fields ext seg plan offs [] results calls = (Inr results, calls)"
| "fill_fields ext seg plan offs (fid # fids) results calls =
     (if IsSystem ext fid then
        (let system_type = GetSystemFieldType ext fid;
             output = bulk_subscript_system seg system_type offs;
             data_array = \<lparr>col_type = INT64, field_id = fid, field = Scalars (LongData output)\<rparr>
         in fill_fields ext seg plan offs fids
              (results\<lparr>fields_data := fields_data results @ [data_array]\<rparr>)
              (calls @ [BulkSystem system_type offs]))
      else
        (case schema_at (schema plan) fid of
           Inl e \<Rightarrow> (Inl e, calls)
         | Inr field_meta \<Rightarrow>
             (let col = bulk_subscript seg fid offs;
                  col_data = (if get_data_type field_meta = ARRAY
                              then set_element_type col (get_element_type field_meta)
                              else col);
                  results' = results\<lparr>fields_data := fields_data results @ [col_data]\<rparr>;
                  calls' = calls @ [BulkField fid offs]
              in if get_primary_field_id (schema plan) = Some fid then
                   (if get_data_type field_meta = INT64 then
                      fill_fields ext seg plan offs fids
                        (results'\<lparr>ids := add_int_ids (ids results') (long_data col_data)\<rparr>) calls'
                    else if get_data_type field_meta = VARCHAR then
                      fill_fields ext seg plan offs fids
                        (results'\<lparr>ids := add_str_ids (ids results') (string_data col_data)\<rparr>) calls'
                    else (Inl DataTypeInvalid, calls'))
                 else fill_fields ext seg plan offs fids results' calls')))"

text \<open>Lines 103 to 176 of \<open>Retrieve\<close>: what runs once the budget check has passed.\<close>

definition Retrieve_assemble ::
  "Externals \<Rightarrow> Segment \<Rightarrow> RetrievePlan \<Rightarrow> RetrieveResult \<Rightarrow>
   (error + RetrieveResults) \<times> bulk_call list" where
  "Retrieve_assemble ext seg plan retrieve_results =
     (if is_count (retrieve_plan_node plan) then
        (if length (field_data retrieve_results) = 1
         then (Inr \<lparr>ids = None, offset = [],
                    fields_data = [field_data retrieve_results ! 0]\<rparr>, [])
         else (Inl (AssertFailed ''count result should only have one column''), []))
      else
        fill_fields ext seg plan (result_offsets retrieve_results) (field_ids plan)
          \<lparr>ids = Some IdNotSet, offset = result_offsets retrieve_results, fields_data = []\<rparr> [])"

text \<open>
  \<^verbatim>\<open>Retrieve(plan, timestamp, limit_size)\<close>: the result or the exception, and the calls
  of \<^verbatim>\<open>bulk_subscript\<close> made before returning or throwing.
\<close>

definition Retrieve ::
  "Externals \<Rightarrow> Visitor \<Rightarrow> Segment \<Rightarrow> RetrievePlan \<Rightarrow> Timestamp \<Rightarrow> int \<Rightarrow>
   (error + RetrieveResults) \<times> bulk_call list" where
  "Retrieve ext visitor seg plan timestamp limit_size =
     (case visitor seg timestamp (retrieve_plan_node plan) of
        Inl e \<Rightarrow> (Inl e, [])
      | Inr retrieve_results \<Rightarrow>
          (case sum_field_sizes ext seg (length (result_offsets retrieve_results))
                  (field_ids plan) 0 of
             Inl e \<Rightarrow> (Inl e, [])
           | Inr output_data_size \<Rightarrow>
               if output_data_size > limit_size then (Inl RetrieveError, [])
               else Retrieve_assemble ext seg plan retrieve_results))"

subsection \<open>get\_real\_count\<close>

text \<open>The plan that \<open>get_real_count\<close> builds: count only, no filter, no output field.\<close>

definition count_plan :: "Segment \<Rightarrow> RetrievePlan" where
  "count_plan seg =
     \<lparr>schema = get_schema seg,
      retrieve_plan_node = \<lparr>predicate = None, is_count = True\<rparr>,
      field_ids = []\<rparr>"

text \<open>The four assertions on the result and the read of its only value (lines 192 to 200).\<close>

definition unwrap_count :: "RetrieveResults \<Rightarrow> error + int" where
  "unwrap_count res =
     (if length (fields_data res) \<noteq> 1 then
        Inl (AssertFailed ''count result should only have one column'')
      else
        (case field (fields_data res ! 0) of
           Scalars (LongData xs) \<Rightarrow>
             if length xs = 1 then Inr (xs ! 0)
             else Inl (AssertFailed ''count result should only have one row'')
         | Scalars _ \<Rightarrow> Inl (AssertFailed ''count result should match long data'')
         | _ \<Rightarrow> Inl (AssertFailed ''count result should match scalar'')))"

definition get_real_count :: "Externals \<Rightarrow> Visitor \<Rightarrow> Segment \<Rightarrow> error + int" where
  "get_real_count ext visitor seg =
     (case fst (Retrieve ext visitor seg (count_plan seg) MAX_TIMESTAMP INT64_MAX) of
        Inl e \<Rightarrow> Inl e
      | Inr res \<Rightarrow> unwrap_count res)"

text \<open>
  Modelled from the spec: the plan visitor (\<^verbatim>\<open>ExecPlanNodeVisitor\<close>) is not part of the
  source file. The specification says that, given a retrieve plan, it "returns matched
  row offsets, applying visibility filtering", that only rows with timestamp at most the
  snapshot participate, and that for a pure row-count query it "returns a single
  synthetic scalar column holding the count".
\<close>

definition visible_rows :: "Timestamp list \<Rightarrow> Timestamp \<Rightarrow> RetrievePlanNode \<Rightarrow> nat list" where
  "visible_rows timestamps timestamp node =
     filter (\<lambda>i. timestamps ! i \<le> timestamp \<and>
                 (case predicate node of None \<Rightarrow> True | Some p \<Rightarrow> p i))
       [0 ..< length timestamps]"

definition count_column :: "int \<Rightarrow> DataArray" where
  "count_column cnt = \<lparr>col_type = INT64, field_id = 0, field = Scalars (LongData [cnt])\<rparr>"

definition get_retrieve_result :: Visitor where
  "get_retrieve_result seg timestamp node =
     (if is_count node then
        Inr \<lparr>result_offsets = [],
             field_data =
               [count_column (int (length (visible_rows (get_timestamps seg) timestamp node)))]\<rparr>
      else
        Inr \<lparr>result_offsets = map int (visible_rows (get_timestamps seg) timestamp node),
             field_data = []\<rparr>)"

subsection \<open>FillPrimaryKeys\<close>

text \<open>
  A primary key is a variant of nothing, an integer or a string. Of a search result the
  members that \<open>FillPrimaryKeys\<close> reads or writes are kept; distances are floats, of which
  only the number is used.
\<close>

datatype PkType = PkNone | PkInt int | PkStr string

record SearchResult =
  distances :: "real list"
  seg_offsets :: "int list"
  primary_keys :: "PkType list"
  pk_type :: DataType

text \<open>
  \<^verbatim>\<open>IsPrimaryKeyDataType\<close> (Types.h), as the assertion that uses it words it: "Primary
  key field is not INT64 or VARCHAR type".
\<close>

definition IsPrimaryKeyDataType :: "DataType \<Rightarrow> bool" where
  "IsPrimaryKeyDataType t = (t = INT64 \<or> t = VARCHAR)"

text \<open>
  Modelled from the spec: \<^verbatim>\<open>ParsePksFromFieldData\<close> is declared in Utils.h, which is not
  part of the source file. The specification says that \<open>FillPrimaryKeys\<close> "parses them
  into the result's primary-key container, recording the concrete primary-key type", and
  that once filled the container is as long as the distances: the entries of the
  container, resized before the call, are overwritten in place by the values of the
  column, integers or strings by the type of the column; a column of another type is an
  unsupported data type.
\<close>

definition overwrite :: "'a list \<Rightarrow> 'a list \<Rightarrow> 'a list" where
  "overwrite xs ys = take (length xs) ys @ drop (length ys) xs"

definition ParsePksFromFieldData :: "PkType list \<Rightarrow> DataArray \<Rightarrow> error + PkType list" where
  "ParsePksFromFieldData pks data =
     (if col_type data = INT64 then Inr (overwrite pks (map PkInt (long_data data)))
      else if col_type data = VARCHAR then Inr (overwrite pks (map PkStr (string_data data)))
      else Inl DataTypeInvalid)"

text \<open>
  A search plan: \<open>plan_node\<close> is the member \<^verbatim>\<open>plan_node_\<close> of \<^verbatim>\<open>Plan\<close>, and
  \<open>searched_field_id\<close> the member \<^verbatim>\<open>field_id_\<close> of its search information.
\<close>

record SearchInfo =
  metric_type :: string
  searched_field_id :: int

record VectorPlanNode =
  search_info :: SearchInfo

record Plan =
  plan_node :: VectorPlanNode
  target_entries :: "FieldId list"

text \<open>
  \<^verbatim>\<open>FillPrimaryKeys(plan, results)\<close>: the exception thrown, if any, and the search result
  after the call (it is passed by reference, so what was written before an exception
  stays written). A null plan is \<open>None\<close>.
\<close>

definition FillPrimaryKeys ::
  "Segment \<Rightarrow> Plan option \<Rightarrow> SearchResult \<Rightarrow> error option \<times> SearchResult" where
  "FillPrimaryKeys seg plan results =
     (if plan = None then (Some (AssertFailed ''empty plan''), results)
      else if length (seg_offsets results) \<noteq> length (distances results) then
        (Some (AssertFailed ''Size of result distances is not equal to size of ids''), results)
      else if length (primary_keys results) \<noteq> 0 then
        (Some (AssertFailed ''results.primary_keys_.size() == 0''), results)
      else
        (let sz = length (distances results);
             results1 = results\<lparr>primary_keys := replicate sz PkNone\<rparr>
         in case get_primary_field_id (get_schema seg) of
              None \<Rightarrow>
                (Some (AssertFailed ''Cannot get primary key offset from schema''), results1)
            | Some pk_field_id \<Rightarrow>
                (case schema_at (get_schema seg) pk_field_id of
                   Inl e \<Rightarrow> (Some e, results1)
                 | Inr field_meta \<Rightarrow>
                     if \<not> IsPrimaryKeyDataType (get_data_type field_meta) then
                       (Some (AssertFailed ''Primary key field is not INT64 or VARCHAR type''),
                        results1)
                     else
                       (let field_data = bulk_subscript seg pk_field_id (seg_offsets results1);
                            results2 = results1\<lparr>pk_type := col_type field_data\<rparr>
                        in case ParsePksFromFieldData (primary_keys results2) field_data of
                             Inl e \<Rightarrow> (Some e, results2)
                           | Inr pks \<Rightarrow> (None, results2\<lparr>primary_keys := pks\<rparr>)))))"

subsection \<open>check\_metric\_type\<close>

text \<open>
  The index metadata of a field, of which the check reads the metric type
  (\<^verbatim>\<open>GeMetricType\<close>); the lookup \<^verbatim>\<open>GetFieldIndexMeta\<close> of the collection's index metadata
  (IndexMeta.h, not part of the source file) is a parameter of the check.
\<close>

record FieldIndexMeta =
  GeMetricType :: string

text \<open>
  \<^verbatim>\<open>check_metric_type(plan, index_meta)\<close>: the exception thrown, if any, and the plan
  after the call. \<^verbatim>\<open>metric_str\<close> is a reference into the plan, so the assignment to it
  writes the plan.
\<close>

definition check_metric_type ::
  "Plan \<Rightarrow> (FieldId \<Rightarrow> FieldIndexMeta) \<Rightarrow> error option \<times> Plan" where
  "check_metric_type plan GetFieldIndexMeta =
     (let field_index_meta = GetFieldIndexMeta (searched_field_id (search_info (plan_node plan)));
          plan' =
            (if metric_type (search_info (plan_node plan)) = [] then
               plan\<lparr>plan_node := (plan_node plan)
                 \<lparr>search_info := (search_info (plan_node plan))
                    \<lparr>metric_type := GeMetricType field_index_meta\<rparr>\<rparr>\<rparr>
             else plan)
      in if metric_type (search_info (plan_node plan')) \<noteq> GeMetricType field_index_meta
         then (Some MetricTypeNotMatch, plan')
         else (None, plan'))"

section \<open>Vocabulary of the statements and concrete inputs\<close>

subsection \<open>check\_metric\_type\<close>

text \<open>
  The metric a plan requests, the metric of the index of the field it searches, and the
  plan with its requested metric replaced.
\<close>

definition requested_metric :: "Plan \<Rightarrow> string" where
  "requested_metric plan = metric_type (search_info (plan_node plan))"

definition index_metric :: "Plan \<Rightarrow> (FieldId \<Rightarrow> FieldIndexMeta) \<Rightarrow> string" where
  "index_metric plan GetFieldIndexMeta =
     GeMetricType (GetFieldIndexMeta (searched_field_id (search_info (plan_node plan))))"

definition set_metric_type :: "Plan \<Rightarrow> string \<Rightarrow> Plan" where
  "set_metric_type plan m =
     plan\<lparr>plan_node := (plan_node plan)
       \<lparr>search_info := (search_info (plan_node plan))\<lparr>metric_type := m\<rparr>\<rparr>\<rparr>"

text \<open>A plan that searches field 102 with metric \<open>m\<close>, and an index of field 102 built with metric \<open>m\<close>.\<close>

definition example_plan :: "string \<Rightarrow> Plan" where
  "example_plan m =
     \<lparr>plan_node = \<lparr>search_info = \<lparr>metric_type = m, searched_field_id = 102\<rparr>\<rparr>,
      target_entries = [101]\<rparr>"

definition example_index_meta :: "string \<Rightarrow> FieldId \<Rightarrow> FieldIndexMeta" where
  "example_index_meta m fid = \<lparr>GeMetricType = (if fid = 102 then m else ''IP'')\<rparr>"

subsection \<open>A segment of three rows\<close>

text \<open>
  Fields 0 and 1 are the system fields. Field 100 is the primary key, an INT64 of 8
  bytes; field 101 is a VARCHAR. The rows have timestamps 10, 20 and 30; the primary key
  of the row at offset \<open>i\<close> is \<open>1000 + i\<close>.
\<close>

definition example_externals :: Externals where
  "example_externals =
     \<lparr>IsSystem = (\<lambda>fid. fid = 0 \<or> fid = 1),
      GetSystemFieldType = (\<lambda>fid. if fid = 1 then Timestamp else RowId),
      TimestampFieldID = 1,
      RowFieldID = 0,
      datatype_is_variable = (\<lambda>t. t = STRING \<or> t = VARCHAR \<or> t = ARRAY \<or> t = JSON)\<rparr>"

definition example_schema :: Schema where
  "example_schema =
     \<lparr>field_metas =
        [100 \<mapsto> \<lparr>get_data_type = INT64, get_element_type = NONE, get_sizeof = 8\<rparr>,
         101 \<mapsto> \<lparr>get_data_type = VARCHAR, get_element_type = NONE, get_sizeof = 0\<rparr>],
      get_primary_field_id = Some 100\<rparr>"

definition example_segment :: Segment where
  "example_segment =
     \<lparr>get_schema = example_schema,
      get_timestamps = [10, 20, 30],
      variable_fields_avg_size = Map.empty,
      bulk_subscript =
        (\<lambda>fid offs.
           if fid = 100
           then \<lparr>col_type = INT64, field_id = 100,
                 field = Scalars (LongData (map (\<lambda>off. 1000 + off) offs))\<rparr>
           else \<lparr>col_type = VARCHAR, field_id = fid,
                 field = Scalars (StringData (map (\<lambda>off. ''abc'') offs))\<rparr>),
      bulk_subscript_system =
        (\<lambda>system_type offs.
           case system_type of RowId \<Rightarrow> offs | Timestamp \<Rightarrow> map (\<lambda>off. 10 * (off + 1)) offs)\<rparr>"

subsection \<open>FillPrimaryKeys\<close>

text \<open>A search result without rows, and one with two rows, neither filled yet.\<close>

definition empty_result :: SearchResult where
  "empty_result = \<lparr>distances = [], seg_offsets = [], primary_keys = [], pk_type = NONE\<rparr>"

definition two_row_result :: SearchResult where
  "two_row_result =
     \<lparr>distances = [1 / 2, 2], seg_offsets = [2, 0], primary_keys = [], pk_type = NONE\<rparr>"

subsection \<open>The field-size estimator\<close>

text \<open>
  The entry stored for a field after a sequence of batches has been observed, and the
  entry the next update starts from (a field without an entry starts from \<open>(0, 0)\<close>).
\<close>

definition stored_after ::
  "Externals \<Rightarrow> Segment \<Rightarrow> FieldId \<Rightarrow> (int \<times> int) list \<Rightarrow> (int \<times> int) option" where
  "stored_after ext seg fid batches =
     (case observe_batches ext seg fid batches of
        Inl e \<Rightarrow> None
      | Inr seg' \<Rightarrow> variable_fields_avg_size seg' fid)"

definition field_info_of :: "Segment \<Rightarrow> FieldId \<Rightarrow> int \<times> int" where
  "field_info_of seg fid =
     (case variable_fields_avg_size seg fid of None \<Rightarrow> (0, 0) | Some info \<Rightarrow> info)"

subsection \<open>Retrieve\<close>

text \<open>
  The projected output size of a request: the sum, over the requested fields, of the
  estimated average size of the field times the number of matched rows.
\<close>

definition projected_size :: "(FieldId \<Rightarrow> int) \<Rightarrow> RetrievePlan \<Rightarrow> RetrieveResult \<Rightarrow> int" where
  "projected_size avg plan retrieve_results =
     sum_list (map (\<lambda>fid. avg fid * int (length (result_offsets retrieve_results)))
                 (field_ids plan))"

text \<open>
  A visitor that matches the rows at offsets 0 and 1, a plan that requests the given
  fields of the three-row segment, and the average sizes of its fields once field 101 has
  the running average 5.
\<close>

definition example_visitor :: Visitor where
  "example_visitor seg timestamp node = Inr \<lparr>result_offsets = [0, 1], field_data = []\<rparr>"

definition example_retrieve_plan :: "FieldId list \<Rightarrow> RetrievePlan" where
  "example_retrieve_plan fids =
     \<lparr>schema = example_schema,
      retrieve_plan_node = \<lparr>predicate = None, is_count = False\<rparr>,
      field_ids = fids\<rparr>"

definition example_avg :: "FieldId \<Rightarrow> int" where
  "example_avg fid = (if fid = 100 then 8 else 5)"

section \<open>Properties\<close>

subsection \<open>The binary search\<close>

text \<open>
  On a sorted array the binary search returns the first offset of the range whose
  timestamp exceeds \<open>v\<close>: everything below the result is at most \<open>v\<close>, everything from the
  result on is above.
\<close>

lemma upper_bound_spec:
  "sorted ts \<Longrightarrow> lo \<le> hi \<Longrightarrow> hi \<le> length ts \<Longrightarrow>
   (\<forall>i<lo. ts ! i \<le> v) \<Longrightarrow> (\<forall>i. hi \<le> i \<and> i < length ts \<longrightarrow> v < ts ! i) \<Longrightarrow>
   lo \<le> upper_bound ts lo hi v \<and> upper_bound ts lo hi v \<le> hi \<and>
   (\<forall>i<upper_bound ts lo hi v. ts ! i \<le> v) \<and>
   (\<forall>i. upper_bound ts lo hi v \<le> i \<and> i < length ts \<longrightarrow> v < ts ! i)"
proof (induction ts lo hi v rule: upper_bound.induct)
  case (1 ts lo hi v)
  let ?mid = "lo + (hi - lo) div 2"
  show ?case
  proof (cases "lo < hi")
    case False
    with "1.prems" show ?thesis by (simp add: upper_bound.simps)
  next
    case lt: True
    then have mid: "lo \<le> ?mid" "?mid < hi" by auto
    show ?thesis
    proof (cases "ts ! ?mid \<le> v")
      case True
      have below: "\<forall>i<Suc ?mid. ts ! i \<le> v"
      proof (intro allI impI)
        fix i assume "i < Suc ?mid"
        then have "i \<le> ?mid" by simp
        moreover have "?mid < length ts" using mid "1.prems" by linarith
        ultimately have "ts ! i \<le> ts ! ?mid"
          using "1.prems"(1) by (simp add: sorted_iff_nth_mono)
        with True show "ts ! i \<le> v" by simp
      qed
      have "Suc ?mid \<le> hi" using mid by simp
      from "1.IH"(1)[OF lt True "1.prems"(1) this "1.prems"(3) below "1.prems"(5)]
      have IH: "Suc ?mid \<le> upper_bound ts (Suc ?mid) hi v \<and> upper_bound ts (Suc ?mid) hi v \<le> hi \<and>
        (\<forall>i<upper_bound ts (Suc ?mid) hi v. ts ! i \<le> v) \<and>
        (\<forall>i. upper_bound ts (Suc ?mid) hi v \<le> i \<and> i < length ts \<longrightarrow> v < ts ! i)" .
      have eq: "upper_bound ts lo hi v = upper_bound ts (Suc ?mid) hi v"
        using lt True by (subst upper_bound.simps) simp
      show ?thesis unfolding eq using IH mid by auto
    next
      case False
      have above: "\<forall>i. ?mid \<le> i \<and> i < length ts \<longrightarrow> v < ts ! i"
      proof (intro allI impI)
        fix i assume "?mid \<le> i \<and> i < length ts"
        then have "ts ! ?mid \<le> ts ! i"
          using "1.prems"(1) by (simp add: sorted_iff_nth_mono)
        with False show "v < ts ! i" by simp
      qed
      have "?mid \<le> length ts" using mid "1.prems" by linarith
      from "1.IH"(2)[OF lt False "1.prems"(1) mid(1) this "1.prems"(4) above]
      have IH: "lo \<le> upper_bound ts lo ?mid v \<and> upper_bound ts lo ?mid v \<le> ?mid \<and>
        (\<forall>i<upper_bound ts lo ?mid v. ts ! i \<le> v) \<and>
        (\<forall>i. upper_bound ts lo ?mid v \<le> i \<and> i < length ts \<longrightarrow> v < ts ! i)" .
      have eq: "upper_bound ts lo hi v = upper_bound ts lo ?mid v"
        using lt False by (subst upper_bound.simps) simp
      show ?thesis unfolding eq using IH mid by auto
    qed
  qed
qed

subsection \<open>The loop of the dense filter\<close>

text \<open>
  \<open>find_next\<close> either finds nothing above \<open>p\<close>, or returns the first set bit above \<open>p\<close>.
\<close>

lemma find_next_cases:
  "(find_next bs p = npos \<and> (\<forall>j. p < j \<and> j < length bs \<longrightarrow> \<not> bs ! j)) \<or>
   (p < find_next bs p \<and> find_next bs p < length bs \<and> bs ! find_next bs p \<and>
    (\<forall>j. p < j \<and> j < find_next bs p \<longrightarrow> \<not> bs ! j))"
proof (cases "List.find (\<lambda>i. bs ! i) [Suc p ..< length bs]")
  case None
  then have "\<forall>j. p < j \<and> j < length bs \<longrightarrow> \<not> bs ! j"
    by (auto simp: find_None_iff)
  with None show ?thesis by (simp add: find_next_def)
next
  case (Some q)
  then obtain i where i: "i < length [Suc p ..< length bs]" "bs ! ([Suc p ..< length bs] ! i)"
      "q = [Suc p ..< length bs] ! i" "\<forall>j<i. \<not> bs ! ([Suc p ..< length bs] ! j)"
    by (auto simp: find_Some_iff)
  then have q: "q = Suc p + i" "Suc p + i < length bs" by auto
  have "\<forall>j. p < j \<and> j < q \<longrightarrow> \<not> bs ! j"
  proof (intro allI impI)
    fix j assume j: "p < j \<and> j < q"
    then have "j - Suc p < i" using q by linarith
    with i(4) have "\<not> bs ! ([Suc p ..< length bs] ! (j - Suc p))" by blast
    moreover have "[Suc p ..< length bs] ! (j - Suc p) = j" using j q by simp
    ultimately show "\<not> bs ! j" by simp
  qed
  with Some i q show ?thesis by (simp add: find_next_def)
qed

lemma to_size_t_nat: "n < 18446744073709551616 \<Longrightarrow> to_size_t (int n) = n"
  by (simp add: to_size_t_def)

lemma to_int32_small: "n < 2147483648 \<Longrightarrow> to_int32 (int n) = int n"
  by (simp add: to_int32_def)

lemma to_size_t_npos: "to_size_t (to_int32 (int npos)) = npos"
  by (simp add: to_size_t_def to_int32_def npos_def)

text \<open>
  On a bitset of fewer than \<open>2^31\<close> bits the loop returns, and it has cleared every bit
  from its start on.
\<close>

lemma filter_loop_clears:
  "length bs < 2147483648 \<Longrightarrow> p \<le> length bs \<Longrightarrow>
   filter_loop bs (int p) = Some (take p bs @ replicate (length bs - p) False)"
proof (induction "length bs - p" arbitrary: bs p rule: less_induct)
  case less
  show ?case
  proof (cases "p < length bs")
    case False
    with less.prems have "p = length bs" by simp
    moreover have "to_size_t (int (length bs)) = length bs"
      using less.prems by (simp add: to_size_t_nat)
    ultimately show ?thesis by (subst filter_loop.simps) simp
  next
    case True
    let ?bs = "bs[p := False]"
    let ?q = "find_next ?bs p"
    have sz: "to_size_t (int p) = p" using True less.prems by (simp add: to_size_t_nat)
    have pn: "p \<noteq> npos" using True less.prems by (simp add: npos_def)
    have step: "filter_loop bs (int p) = filter_loop ?bs (to_int32 (int ?q))"
      using True pn by (subst filter_loop.simps) (simp add: sz)
    from find_next_cases[of ?bs p] show ?thesis
    proof
      assume a: "?q = npos \<and> (\<forall>j. p < j \<and> j < length ?bs \<longrightarrow> \<not> ?bs ! j)"
      have "to_size_t (to_int32 (int ?q)) = npos"
        using a by (simp add: to_size_t_npos)
      then have "\<not> to_size_t (to_int32 (int ?q)) < length ?bs"
        using less.prems by (simp add: npos_def)
      then have "filter_loop ?bs (to_int32 (int ?q)) = Some ?bs"
        by (subst filter_loop.simps) simp
      moreover have "?bs = take p bs @ replicate (length bs - p) False"
      proof (rule nth_equalityI)
        show "length ?bs = length (take p bs @ replicate (length bs - p) False)"
          using True by simp
      next
        fix i assume "i < length ?bs"
        then have i: "i < length bs" by simp
        show "?bs ! i = (take p bs @ replicate (length bs - p) False) ! i"
        proof (cases "i < p")
          case True
          then show ?thesis using i by (simp add: nth_append)
        next
          case False
          then have "\<not> ?bs ! i" using a i True by (cases "i = p") auto
          then show ?thesis using False i by (simp add: nth_append)
        qed
      qed
      ultimately show ?thesis using step by simp
    next
      assume a: "p < ?q \<and> ?q < length ?bs \<and> ?bs ! ?q \<and> (\<forall>j. p < j \<and> j < ?q \<longrightarrow> \<not> ?bs ! j)"
      then have q: "p < ?q" "?q < length bs" by simp_all
      have "to_int32 (int ?q) = int ?q" using q less.prems by (simp add: to_int32_small)
      moreover have "filter_loop ?bs (int ?q) =
          Some (take ?q ?bs @ replicate (length ?bs - ?q) False)"
        using q less.prems by (intro less.hyps) simp_all
      moreover have "take ?q ?bs @ replicate (length ?bs - ?q) False =
          take p bs @ replicate (length bs - p) False"
      proof (rule nth_equalityI)
        show "length (take ?q ?bs @ replicate (length ?bs - ?q) False) =
              length (take p bs @ replicate (length bs - p) False)"
          using q True by simp
      next
        fix i assume "i < length (take ?q ?bs @ replicate (length ?bs - ?q) False)"
        then have i: "i < length bs" using q by simp
        show "(take ?q ?bs @ replicate (length ?bs - ?q) False) ! i =
              (take p bs @ replicate (length bs - p) False) ! i"
        proof (cases "i < p")
          case True
          then show ?thesis using i q by (simp add: nth_append)
        next
          case False
          have "\<not> (take ?q ?bs @ replicate (length ?bs - ?q) False) ! i"
          proof (cases "i < ?q")
            case True
            then have "\<not> ?bs ! i" using a False i by (cases "i = p") auto
            then show ?thesis using True i by (simp add: nth_append)
          next
            case False
            then show ?thesis using i by (simp add: nth_append)
          qed
          then show ?thesis using False i by (simp add: nth_append)
        qed
      qed
      ultimately show ?thesis using step by simp
    qed
  qed
qed

text \<open>An offset that is not below the size of the bitset ends the loop at once.\<close>

lemma filter_loop_beyond:
  "\<not> to_size_t off < length bs \<Longrightarrow> filter_loop bs off = Some bs"
  by (subst filter_loop.simps) simp

subsection \<open>The two forms on valid inputs\<close>

text \<open>The first read of both forms, \<open>timestamps[cnt - 1]\<close>.\<close>

lemma timestamps_at_last:
  "0 < length bs \<Longrightarrow> length bs \<le> length ts \<Longrightarrow>
   timestamps_at ts (int (length bs) - 1) = Some (ts ! (length bs - 1))"
  by (auto simp: timestamps_at_def nat_diff_distrib' intro: arg_cong[where f="(!) ts"])

lemma timestamps_at_none_iff:
  "timestamps_at ts (int (length bs) - 1) = None \<longleftrightarrow> bs = [] \<or> length ts < length bs"
  by (auto simp: timestamps_at_def)

text \<open>
  The dense form on a bitset of fewer than \<open>2^31\<close> bits: it returns, and a bit is set
  afterwards exactly when it was set before and the timestamp of its row is at most the
  snapshot.
\<close>

lemma timestamp_filter_dense_below_2_31:
  assumes "sorted ts" "length bitset = length ts" "length bitset < 2147483648"
    and "i < length bitset"
  shows "\<exists>r. timestamp_filter_dense ts bitset t = Some (Inr r) \<and> length r = length bitset \<and>
             (r ! i \<longleftrightarrow> bitset ! i \<and> ts ! i \<le> t)"
proof -
  let ?n = "length bitset"
  have at: "timestamps_at ts (int ?n - 1) = Some (ts ! (?n - 1))"
    using assms by (intro timestamps_at_last) auto
  show ?thesis
  proof (cases "ts ! (?n - 1) \<le> t")
    case True
    have "ts ! i \<le> ts ! (?n - 1)"
      using assms by (intro sorted_nth_mono) simp_all
    with True have "ts ! i \<le> t" by simp
    with True at show ?thesis by (simp add: timestamp_filter_dense_def)
  next
    case False
    let ?p = "upper_bound ts 0 ?n t"
    have spec: "0 \<le> ?p \<and> ?p \<le> ?n \<and> (\<forall>i<?p. ts ! i \<le> t) \<and>
        (\<forall>i. ?p \<le> i \<and> i < length ts \<longrightarrow> t < ts ! i)"
      using assms by (intro upper_bound_spec) auto
    then have p: "?p \<le> ?n" by simp
    have "to_int32 (int ?p) = int ?p" using p assms(3) by (simp add: to_int32_small)
    moreover have "filter_loop bitset (int ?p) =
        Some (take ?p bitset @ replicate (?n - ?p) False)"
      using assms(3) p by (rule filter_loop_clears)
    ultimately have res: "timestamp_filter_dense ts bitset t =
        Some (Inr (take ?p bitset @ replicate (?n - ?p) False))"
      using at False by (simp add: timestamp_filter_dense_def)
    have "i < ?p \<longleftrightarrow> ts ! i \<le> t"
      using spec assms(2,4) by (metis not_le)
    then have "(take ?p bitset @ replicate (?n - ?p) False) ! i \<longleftrightarrow> bitset ! i \<and> ts ! i \<le> t"
      using assms(4) p by (auto simp: nth_append)
    with res p show ?thesis by simp
  qed
qed

text \<open>
  The sparse form with every offset inside the segment: it returns, and a bit is set
  afterwards exactly when it was set before or its offset is listed with a timestamp
  above the snapshot.
\<close>

lemma point_filter_valid:
  "length bitset = length ts \<Longrightarrow> \<forall>off \<in> set offsets. 0 \<le> off \<and> off < int (length ts) \<Longrightarrow>
   \<exists>r. point_filter ts t bitset offsets = Inr r \<and> length r = length bitset \<and>
       (\<forall>i<length bitset. r ! i \<longleftrightarrow> bitset ! i \<or> (int i \<in> set offsets \<and> t < ts ! i))"
proof (induction offsets arbitrary: bitset)
  case Nil
  then show ?case by simp
next
  case (Cons off offsets)
  then have off: "0 \<le> off" "nat off < length ts" by auto
  then have at: "timestamps_at ts off = Some (ts ! nat off)"
    by (simp add: timestamps_at_def)
  show ?case
  proof (cases "t < ts ! nat off")
    case True
    let ?b = "bitset[nat off := True]"
    from Cons.IH[of ?b] Cons.prems obtain r where r:
      "point_filter ts t ?b offsets = Inr r" "length r = length ?b"
      "\<forall>i<length ?b. r ! i \<longleftrightarrow> ?b ! i \<or> (int i \<in> set offsets \<and> t < ts ! i)"
      by auto
    have "\<forall>i<length bitset. r ! i \<longleftrightarrow> bitset ! i \<or> (int i \<in> set (off # offsets) \<and> t < ts ! i)"
    proof (intro allI impI)
      fix i assume i: "i < length bitset"
      show "r ! i \<longleftrightarrow> bitset ! i \<or> (int i \<in> set (off # offsets) \<and> t < ts ! i)"
      proof (cases "i = nat off")
        case True
        then have "int i = off" using off by simp
        moreover have "?b ! i" using True i by simp
        ultimately show ?thesis using r(3) i \<open>t < ts ! nat off\<close> True by auto
      next
        case False
        then have "int i \<noteq> off" by auto
        moreover have "?b ! i = bitset ! i" using False by simp
        ultimately show ?thesis using r(3) i by auto
      qed
    qed
    with r True at off Cons.prems(1) show ?thesis by simp
  next
    case False
    from Cons.IH[of bitset] Cons.prems obtain r where r:
      "point_filter ts t bitset offsets = Inr r" "length r = length bitset"
      "\<forall>i<length bitset. r ! i \<longleftrightarrow> bitset ! i \<or> (int i \<in> set offsets \<and> t < ts ! i)"
      by auto
    have "\<forall>i<length bitset. r ! i \<longleftrightarrow> bitset ! i \<or> (int i \<in> set (off # offsets) \<and> t < ts ! i)"
    proof (intro allI impI)
      fix i assume i: "i < length bitset"
      have "int i = off \<Longrightarrow> \<not> t < ts ! i" using False by auto
      then show "r ! i \<longleftrightarrow> bitset ! i \<or> (int i \<in> set (off # offsets) \<and> t < ts ! i)"
        using r(3) i by auto
    qed
    with r False at show ?thesis by simp
  qed
qed

lemma timestamp_filter_sparse_valid:
  assumes "sorted ts" "length bitset = length ts"
    and "\<forall>off \<in> set offsets. 0 \<le> off \<and> off < int (length ts)"
    and "i < length bitset"
  shows "\<exists>r. timestamp_filter_sparse ts bitset offsets t = Inr r \<and> length r = length bitset \<and>
       (r ! i \<longleftrightarrow> bitset ! i \<or> (int i \<in> set offsets \<and> t < ts ! i))"
proof -
  let ?n = "length bitset"
  have at: "timestamps_at ts (int ?n - 1) = Some (ts ! (?n - 1))"
    using assms by (intro timestamps_at_last) auto
  show ?thesis
  proof (cases "ts ! (?n - 1) \<le> t")
    case True
    have "ts ! i \<le> ts ! (?n - 1)"
      using assms by (intro sorted_nth_mono) simp_all
    with True have "\<not> t < ts ! i" by simp
    with True at show ?thesis by (simp add: timestamp_filter_sparse_def)
  next
    case False
    from point_filter_valid[OF assms(2,3), of t] assms(4) obtain r where
      "point_filter ts t bitset offsets = Inr r" "length r = length bitset"
      "r ! i \<longleftrightarrow> bitset ! i \<or> (int i \<in> set offsets \<and> t < ts ! i)"
      by blast
    with False at show ?thesis by (simp add: timestamp_filter_sparse_def)
  qed
qed

text \<open>
  On bitsets of fewer than \<open>2^31\<close> bits the two forms agree on every candidate offset:
  the dense form leaves its candidate bit set exactly when the sparse form leaves its
  filtered-out bit clear.
\<close>

lemma timestamp_filter_forms_agree_below_2_31:
  assumes "sorted ts" "length cand = length ts" "length filt = length ts"
    and "length ts < 2147483648"
    and "\<forall>off \<in> set offs. 0 \<le> off \<and> off < int (length ts)"
    and "int i \<in> set offs" and "cand ! i" and "\<not> filt ! i"
  shows "\<exists>d f. timestamp_filter_dense ts cand t = Some (Inr d) \<and>
               timestamp_filter_sparse ts filt offs t = Inr f \<and>
               (d ! i \<longleftrightarrow> \<not> f ! i)"
proof -
  have i: "i < length ts" using assms(5,6) by auto
  from timestamp_filter_dense_below_2_31[of ts cand i t] assms i obtain d where
    d: "timestamp_filter_dense ts cand t = Some (Inr d)" "d ! i \<longleftrightarrow> cand ! i \<and> ts ! i \<le> t"
    by auto
  from timestamp_filter_sparse_valid[of ts filt offs i t] assms i obtain f where
    f: "timestamp_filter_sparse ts filt offs t = Inr f"
       "f ! i \<longleftrightarrow> filt ! i \<or> (int i \<in> set offs \<and> t < ts ! i)"
    by auto
  from d f assms(6,7,8) show ?thesis by auto
qed

text \<open>
  The scenario of the specification: three rows with timestamps 10, 20 and 30, at snapshot
  20. The dense form leaves the candidate bits of offsets 0 and 1 set and clears that of
  offset 2; the sparse form marks offset 2 alone as filtered out.
\<close>

lemma timestamp_filter_scenario:
  "timestamp_filter_dense [10, 20, 30] [True, True, True] 20 = Some (Inr [True, True, False]) \<and>
   timestamp_filter_sparse [10, 20, 30] [False, False, False] [0, 1, 2] 20
     = Inr [False, False, True]"
proof -
  have "upper_bound [10, 20, 30] 0 3 20 = 2"
    by (simp add: upper_bound.simps)
  then have p: "upper_bound [10, 20, 30] 0 (length [True, True, True]) 20 = 2"
    by (simp add: numeral_3_eq_3)
  have l: "filter_loop [True, True, True] 2 = Some [True, True, False]"
    by (simp add: filter_loop.simps to_size_t_def to_int32_def find_next_def npos_def)
  have "to_int32 (int 2) = 2" by (simp add: to_int32_def)
  with l have d: "timestamp_filter_dense [10, 20, 30] [True, True, True] 20
      = Some (Inr [True, True, False])"
    unfolding timestamp_filter_dense_def p by (simp add: timestamps_at_def)
  have "timestamp_filter_sparse [10, 20, 30] [False, False, False] [0, 1, 2] 20
     = Inr [False, False, True]"
    by (simp add: timestamp_filter_sparse_def timestamps_at_def)
  with d show ?thesis by simp
qed

subsection \<open>A segment of \<open>2^31 + 1\<close> rows\<close>

text \<open>
  The rows at offsets below \<open>2^31\<close> have timestamp 0 and the last row has timestamp 1.
  At snapshot 0 the binary search returns \<open>2^31\<close>. Stored in the \<^verbatim>\<open>int\<close> loop variable
  this is \<open>-2^31\<close>, which the comparison with \<^verbatim>\<open>cnt\<close> reads as
  \<open>2^64 - 2^31\<close>: the loop body never runs and the bitset is returned as it was.
\<close>

lemma upper_bound_large_segment:
  "upper_bound (replicate 2147483648 0 @ [1]) 0 2147483649 0 = 2147483648"
proof -
  let ?ts = "replicate 2147483648 (0::Timestamp) @ [1]"
  let ?p = "upper_bound ?ts 0 2147483649 0"
  have srt: "sorted ?ts" by (simp add: sorted_append)
  have len: "length ?ts = 2147483649" by simp
  have spec: "0 \<le> ?p \<and> ?p \<le> 2147483649 \<and> (\<forall>i<?p. ?ts ! i \<le> 0) \<and>
        (\<forall>i. ?p \<le> i \<and> i < length ?ts \<longrightarrow> 0 < ?ts ! i)"
    using srt len by (intro upper_bound_spec) auto
  have "\<not> ?p < 2147483648"
  proof
    assume lt: "?p < 2147483648"
    then have "0 < ?ts ! ?p" using spec by simp
    moreover have "?ts ! ?p = 0" using lt by (simp add: nth_append)
    ultimately show False by simp
  qed
  moreover have "\<not> 2147483648 < ?p"
  proof
    assume "2147483648 < ?p"
    then have "?ts ! 2147483648 \<le> 0" using spec by blast
    then show False by (simp add: nth_append)
  qed
  ultimately show ?thesis by simp
qed

lemma timestamp_filter_dense_large_segment:
  assumes "length bitset = 2147483649"
  shows "timestamp_filter_dense (replicate 2147483648 0 @ [1]) bitset 0 = Some (Inr bitset)"
proof -
  have at: "timestamps_at (replicate 2147483648 0 @ [1]) (int (length bitset) - 1)
      = Some (1::Timestamp)"
    using assms by (simp add: timestamps_at_def nth_append)
  have "to_size_t (to_int32 (int 2147483648)) = 18446744071562067968"
    by (simp add: to_size_t_def to_int32_def)
  then have "filter_loop bitset (to_int32 (int 2147483648)) = Some bitset"
    using assms by (intro filter_loop_beyond) simp
  with at assms show ?thesis
    by (simp add: timestamp_filter_dense_def upper_bound_large_segment)
qed

text \<open>
  Claim C1 (the dense form leaves a bit set at offset \<open>i\<close> if and only if it was set
  before the call and \<open>timestamps[i] \<le> snapshot\<close>), evaluated on the segment of
  \<open>2^31 + 1\<close> rows with every bit set, at snapshot 0: the call returns the bitset
  unchanged, so the bit of the last row is still set although its timestamp, 1, exceeds
  the snapshot.
\<close>

theorem timestamp_filter_dense_keeps_invisible_row:
  "timestamp_filter_dense (replicate 2147483648 0 @ [1]) (replicate 2147483649 True) 0
     = Some (Inr (replicate 2147483649 True)) \<and>
   replicate 2147483649 True ! 2147483648 \<and>
   \<not> (replicate 2147483648 0 @ [1 :: Timestamp]) ! 2147483648 \<le> 0"
  by (simp add: timestamp_filter_dense_large_segment nth_append)

text \<open>
  Claim C2 (the dense and the sparse form agree on the visibility of every offset of a
  shared candidate set), evaluated on the segment of \<open>2^31 + 1\<close> rows with the candidate
  set \<open>{2^31}\<close>, at snapshot 0: the dense form leaves the candidate bit of offset
  \<open>2^31\<close> set (visible), the sparse form sets its filtered-out bit (not visible).
\<close>

theorem timestamp_filter_forms_disagree:
  "timestamp_filter_dense (replicate 2147483648 0 @ [1]) (replicate 2147483648 False @ [True]) 0
     = Some (Inr (replicate 2147483648 False @ [True])) \<and>
   timestamp_filter_sparse (replicate 2147483648 0 @ [1]) (replicate 2147483648 False @ [False])
       [2147483648] 0
     = Inr (replicate 2147483648 False @ [True])"
proof -
  have at: "timestamps_at (replicate 2147483648 0 @ [1])
       (int (length (replicate 2147483648 False @ [False])) - 1) = Some (1::Timestamp)"
    by (simp add: timestamps_at_def nth_append)
  have at2: "timestamps_at (replicate 2147483648 0 @ [1]) 2147483648 = Some (1::Timestamp)"
    by (simp add: timestamps_at_def nth_append)
  have upd: "(replicate 2147483648 False @ [False])[2147483648 := True]
      = replicate 2147483648 False @ [True]"
    by (simp add: list_update_append)
  have "timestamp_filter_sparse (replicate 2147483648 0 @ [1])
       (replicate 2147483648 False @ [False]) [2147483648] 0
     = Inr (replicate 2147483648 False @ [True])"
    using at at2 upd by (simp add: timestamp_filter_sparse_def)
  then show ?thesis by (simp add: timestamp_filter_dense_large_segment)
qed

subsection \<open>A bitset of \<open>2^32 + 4\<close> bits\<close>

text \<open>
  Only the last bit, at offset \<open>2^32 + 3\<close>, is set. Started at offset 3 the loop clears
  bit 3, finds the next set bit at \<open>2^32 + 3\<close> and stores it in the \<^verbatim>\<open>int\<close> loop
  variable, where it is 3 again: the loop never ends.
\<close>

lemma find_next_wraps:
  "find_next (replicate 4294967299 False @ [True]) 3 = 4294967299"
proof -
  let ?bs = "replicate 4294967299 False @ [True]"
  from find_next_cases[of ?bs 3] show ?thesis
  proof
    assume "find_next ?bs 3 = npos \<and> (\<forall>j. 3 < j \<and> j < length ?bs \<longrightarrow> \<not> ?bs ! j)"
    then have "\<not> ?bs ! 4294967299" by simp
    then show ?thesis by (simp add: nth_append)
  next
    assume a: "3 < find_next ?bs 3 \<and> find_next ?bs 3 < length ?bs \<and> ?bs ! find_next ?bs 3 \<and>
      (\<forall>j. 3 < j \<and> j < find_next ?bs 3 \<longrightarrow> \<not> ?bs ! j)"
    then have "\<not> find_next ?bs 3 < 4294967299" by (auto simp: nth_append)
    moreover from a have "find_next ?bs 3 < 4294967300" by simp
    ultimately show ?thesis by simp
  qed
qed

lemma filter_loop_no_result:
  assumes "filter_loop bs off = Some y"
  shows "\<not> (bs = replicate 4294967299 False @ [True] \<and> off = 3)"
proof (rule filter_loop.raw_induct
    [where P = "\<lambda>b off y. \<not> (b = replicate 4294967299 False @ [True] \<and> off = 3)", OF _ assms])
  fix f :: "bool list \<Rightarrow> int \<Rightarrow> bool list option" and bitset off' y'
  let ?bs = "replicate 4294967299 False @ [True]"
  assume IH: "\<And>b off y. f b off = Some y \<Longrightarrow> \<not> (b = ?bs \<and> off = 3)"
    and body: "(if to_size_t off' < length bitset then
        (if to_size_t off' = npos then Some bitset
         else f (bitset[to_size_t off' := False])
                (to_int32 (int (find_next (bitset[to_size_t off' := False]) (to_size_t off')))))
      else Some bitset) = Some y'"
  have "?bs ! 3 = False" by (simp add: nth_append)
  then have same: "?bs[3 := False] = ?bs"
    using list_update_id[of "?bs" 3] by simp
  have wraps: "to_int32 (int (find_next ?bs 3)) = 3"
    by (simp add: find_next_wraps to_int32_def)
  have sz: "to_size_t 3 = 3" by (simp add: to_size_t_def)
  show "\<not> (bitset = ?bs \<and> off' = 3)"
  proof
    assume "bitset = ?bs \<and> off' = 3"
    with body have "f ?bs 3 = Some y'"
      by (simp add: sz same wraps npos_def)
    from IH[OF this] show False by simp
  qed
qed

lemma filter_loop_diverges:
  "filter_loop (replicate 4294967299 False @ [True]) 3 = None"
proof (cases "filter_loop (replicate 4294967299 False @ [True]) 3")
  case None
  then show ?thesis .
next
  case (Some y)
  from filter_loop_no_result[OF this] show ?thesis by simp
qed

lemma upper_bound_small_pilot:
  "upper_bound (replicate 3 0 @ replicate 4294967297 1) 0 4294967300 0 = 3"
proof -
  let ?ts = "replicate 3 (0::Timestamp) @ replicate 4294967297 1"
  let ?p = "upper_bound ?ts 0 4294967300 0"
  have srt: "sorted ?ts" by (simp add: sorted_append)
  have len: "length ?ts = 4294967300" by simp
  have spec: "0 \<le> ?p \<and> ?p \<le> 4294967300 \<and> (\<forall>i<?p. ?ts ! i \<le> 0) \<and>
        (\<forall>i. ?p \<le> i \<and> i < length ?ts \<longrightarrow> 0 < ?ts ! i)"
    using srt len by (intro upper_bound_spec) auto
  have "\<not> ?p < 3"
  proof
    assume lt: "?p < 3"
    then have "0 < ?ts ! ?p" using spec by simp
    moreover have "?ts ! ?p = 0" using lt by (simp add: nth_append)
    ultimately show False by simp
  qed
  moreover have "\<not> 3 < ?p"
  proof
    assume "3 < ?p"
    then have "?ts ! 3 \<le> 0" using spec by blast
    then show False by (simp add: nth_append)
  qed
  ultimately show ?thesis by simp
qed

text \<open>
  The dense form on such a segment, whose first three rows are visible at snapshot 0: the
  call never returns.
\<close>

lemma timestamp_filter_dense_never_returns:
  "timestamp_filter_dense (replicate 3 0 @ replicate 4294967297 1)
     (replicate 4294967299 False @ [True]) 0 = None"
proof -
  have at: "timestamps_at (replicate 3 0 @ replicate 4294967297 1)
      (int (length (replicate 4294967299 False @ [True])) - 1) = Some (1::Timestamp)"
    by (simp add: timestamps_at_def nth_append)
  have "to_int32 (int 3) = 3" by (simp add: to_int32_def)
  with at show ?thesis
    by (simp add: timestamp_filter_dense_def upper_bound_small_pilot filter_loop_diverges)
qed

subsection \<open>The fast exit and the first read\<close>

text \<open>
  Claim C7: for every timestamp array and snapshot with \<open>max(T) \<le> s\<close> (or, which
  monotonicity makes the same, with the timestamp of the last row at most \<open>s\<close>), both
  forms of the filter return without modifying any bit of the bitset. The bitset has one
  bit per row.
\<close>

theorem timestamp_filter_fast_exit:
  assumes "timestamps \<noteq> []" and "length bitset = length timestamps"
    and "Max (set timestamps) \<le> t \<or> last timestamps \<le> t"
  shows "timestamp_filter_dense timestamps bitset t = Some (Inr bitset) \<and>
         timestamp_filter_sparse timestamps bitset offs t = Inr bitset"
proof -
  have at: "timestamps_at timestamps (int (length bitset) - 1) = Some (last timestamps)"
    using assms(1,2) by (simp add: timestamps_at_last last_conv_nth)
  have "last timestamps \<le> Max (set timestamps)"
    using assms(1) by simp
  with assms(3) have "last timestamps \<le> t" by auto
  with at show ?thesis
    by (simp add: timestamp_filter_dense_def timestamp_filter_sparse_def)
qed

theorem timestamp_filter_fast_exit_witness:
  "timestamp_filter_dense [10, 20, 30] [True, False, True] 30 = Some (Inr [True, False, True]) \<and>
   timestamp_filter_sparse [10, 20, 30] [True, False, True] [0, 2] 30 = Inr [True, False, True]"
proof -
  have h1: "[10, 20, 30 :: Timestamp] \<noteq> []" by simp
  have h2: "length [True, False, True] = length [10, 20, 30 :: Timestamp]" by simp
  have h3: "Max (set [10, 20, 30 :: Timestamp]) \<le> 30 \<or> last [10, 20, 30 :: Timestamp] \<le> 30"
    by simp
  show ?thesis using timestamp_filter_fast_exit[OF h1 h2 h3] by simp
qed

text \<open>
  Claim C9: both forms read \<open>timestamps[cnt - 1]\<close> first, where \<open>cnt\<close> is the size of the
  bitset, whatever the bitset is. The read is inside the array exactly when the bitset is
  not empty and the array has at least \<open>cnt\<close> entries: the dense form ends in the
  out-of-bounds read exactly when the bitset is empty or longer than the array, and so
  does the sparse form (whose later reads, one per offset, can be out of bounds too). For
  the empty bitset the index is \<open>-1\<close> and the read has no value.
\<close>

theorem timestamp_filter_reads_last_timestamp:
  "(timestamp_filter_dense timestamps bitset t = Some (Inl OutOfBounds)) =
     (bitset = [] \<or> length timestamps < length bitset) \<and>
   (timestamp_filter_sparse timestamps bitset [] t = Inl OutOfBounds) =
     (bitset = [] \<or> length timestamps < length bitset) \<and>
   (bitset = [] \<or> length timestamps < length bitset \<longrightarrow>
      timestamp_filter_sparse timestamps bitset offs t = Inl OutOfBounds) \<and>
   timestamps_at timestamps (int (length ([] :: bool list)) - 1) = None"
proof -
  have "timestamps_at timestamps (int (length bitset) - 1) = None \<longleftrightarrow>
      bitset = [] \<or> length timestamps < length bitset"
    by (rule timestamps_at_none_iff)
  then show ?thesis
    by (auto simp: timestamp_filter_dense_def timestamp_filter_sparse_def timestamps_at_def
        split: option.splits)
qed

theorem timestamp_filter_reads_last_timestamp_witness:
  "timestamp_filter_dense [10, 20] [] 5 = Some (Inl OutOfBounds) \<and>
   timestamp_filter_sparse [10, 20] [] [0] 5 = Inl OutOfBounds \<and>
   timestamp_filter_sparse [10, 20] [True, True, True] [0] 5 = Inl OutOfBounds"
  using timestamp_filter_reads_last_timestamp[of "[10, 20]" "[]" 5 "[0]"] timestamp_filter_reads_last_timestamp[of "[10, 20]" "[True, True, True]" 5 "[0]"]
  by simp

subsection \<open>check\_metric\_type\<close>

text \<open>
  Claim C8: when the requested metric is empty the check succeeds, with the metric of the
  index written into the plan; when it is not empty and differs from the metric of the
  index the check throws the metric-type mismatch, the plan unchanged; when it is not
  empty and equal to the metric of the index the check succeeds, the plan unchanged.
\<close>

theorem check_metric_type_cases:
  "(requested_metric plan = [] \<longrightarrow>
      check_metric_type plan index_meta =
        (None, set_metric_type plan (index_metric plan index_meta))) \<and>
   (requested_metric plan \<noteq> [] \<and> requested_metric plan \<noteq> index_metric plan index_meta \<longrightarrow>
      check_metric_type plan index_meta = (Some MetricTypeNotMatch, plan)) \<and>
   (requested_metric plan \<noteq> [] \<and> requested_metric plan = index_metric plan index_meta \<longrightarrow>
      check_metric_type plan index_meta = (None, plan))"
  by (simp add: check_metric_type_def set_metric_type_def index_metric_def requested_metric_def
      Let_def)

theorem check_metric_type_cases_witness:
  "check_metric_type (example_plan '''') (example_index_meta ''L2'')
     = (None, example_plan ''L2'') \<and>
   check_metric_type (example_plan ''IP'') (example_index_meta ''L2'')
     = (Some MetricTypeNotMatch, example_plan ''IP'') \<and>
   check_metric_type (example_plan ''L2'') (example_index_meta ''L2'')
     = (None, example_plan ''L2'')"
  using check_metric_type_cases[of "example_plan ''''" "example_index_meta ''L2''"]
    check_metric_type_cases[of "example_plan ''IP''" "example_index_meta ''L2''"]
    check_metric_type_cases[of "example_plan ''L2''" "example_index_meta ''L2''"]
  by (simp add: example_plan_def example_index_meta_def set_metric_type_def index_metric_def
      requested_metric_def)

text \<open>
  Claim C10 says that after a successful call the metric of the plan is always non-empty.
  It is not when the index itself has the empty metric: the check succeeds and leaves the
  empty metric in the plan.
\<close>

theorem check_metric_type_empty_index_metric:
  "check_metric_type (example_plan '''') (example_index_meta '''') = (None, example_plan '''') \<and>
   requested_metric (example_plan '''') = []"
  by (simp add: check_metric_type_def example_plan_def example_index_meta_def
      requested_metric_def)

text \<open>
  Claim C10, amended: the check writes its plan. When the requested metric is empty the
  metric of the index is written into the plan before the comparison. After a successful
  call the metric of the plan equals the metric of the index, and is therefore non-empty
  whenever the metric of the index is; nothing else of the plan has changed. A plan with
  an empty metric is changed by the check whenever the metric of the index is non-empty.
\<close>

theorem check_metric_type_writes_plan:
  "(requested_metric plan = [] \<longrightarrow>
      check_metric_type plan index_meta =
        (None, set_metric_type plan (index_metric plan index_meta))) \<and>
   (fst (check_metric_type plan index_meta) = None \<longrightarrow>
      requested_metric (snd (check_metric_type plan index_meta)) = index_metric plan index_meta \<and>
      snd (check_metric_type plan index_meta) =
        set_metric_type plan (index_metric plan index_meta)) \<and>
   (fst (check_metric_type plan index_meta) = None \<and> index_metric plan index_meta \<noteq> [] \<longrightarrow>
      requested_metric (snd (check_metric_type plan index_meta)) \<noteq> []) \<and>
   (requested_metric plan = [] \<and> index_metric plan index_meta \<noteq> [] \<longrightarrow>
      snd (check_metric_type plan index_meta) \<noteq> plan)"
proof -
  let ?r = "check_metric_type plan index_meta"
  have a: "requested_metric plan = [] \<longrightarrow>
      ?r = (None, set_metric_type plan (index_metric plan index_meta))"
    by (simp add: check_metric_type_def set_metric_type_def index_metric_def
        requested_metric_def Let_def)
  have b: "fst ?r = None \<longrightarrow>
      requested_metric (snd ?r) = index_metric plan index_meta \<and>
      snd ?r = set_metric_type plan (index_metric plan index_meta)"
    by (auto simp: check_metric_type_def set_metric_type_def index_metric_def
        requested_metric_def Let_def)
  have c: "fst ?r = None \<and> index_metric plan index_meta \<noteq> [] \<longrightarrow>
      requested_metric (snd ?r) \<noteq> []"
    using b by auto
  have d: "requested_metric plan = [] \<and> index_metric plan index_meta \<noteq> [] \<longrightarrow>
      snd ?r \<noteq> plan"
  proof (intro impI notI)
    assume h: "requested_metric plan = [] \<and> index_metric plan index_meta \<noteq> []"
      and eq: "snd ?r = plan"
    from h a have "fst ?r = None" by simp
    with b have "requested_metric (snd ?r) = index_metric plan index_meta" by blast
    with eq h show False by simp
  qed
  from a b c d show ?thesis by blast
qed

theorem check_metric_type_writes_plan_witness:
  "check_metric_type (example_plan '''') (example_index_meta ''L2'')
     = (None, example_plan ''L2'') \<and>
   requested_metric (snd (check_metric_type (example_plan '''') (example_index_meta ''L2'')))
     = ''L2'' \<and>
   snd (check_metric_type (example_plan '''') (example_index_meta ''L2'')) \<noteq> example_plan ''''"
  using check_metric_type_writes_plan[of "example_plan ''''" "example_index_meta ''L2''"]
  by (simp add: example_plan_def example_index_meta_def set_metric_type_def index_metric_def
      requested_metric_def check_metric_type_def)

subsection \<open>FillPrimaryKeys\<close>

text \<open>
  A call that finds the container filled or the lengths different fails before it writes
  anything. A call that succeeds has found the container empty and the lengths equal, and
  leaves as many primary keys as there are distances. Whatever a call does, afterwards
  either the result is untouched and a precondition was violated, or the container is as
  long as the distances: so a second call on a result with rows fails.
\<close>

lemma length_overwrite: "length (overwrite xs ys) = length xs"
  by (simp add: overwrite_def)

lemma FillPrimaryKeys_fails_early:
  assumes "primary_keys results \<noteq> [] \<or> length (seg_offsets results) \<noteq> length (distances results)"
  shows "\<exists>msg. FillPrimaryKeys seg plan results = (Some (AssertFailed msg), results)"
  using assms by (auto simp: FillPrimaryKeys_def)

lemma FillPrimaryKeys_success:
  assumes "fst (FillPrimaryKeys seg plan results) = None"
  shows "distances (snd (FillPrimaryKeys seg plan results)) = distances results \<and>
         seg_offsets (snd (FillPrimaryKeys seg plan results)) = seg_offsets results \<and>
         length (seg_offsets results) = length (distances results) \<and>
         length (primary_keys (snd (FillPrimaryKeys seg plan results))) = length (distances results)"
  using assms
  by (auto simp: FillPrimaryKeys_def Let_def ParsePksFromFieldData_def length_overwrite
      split: if_splits option.splits sum.splits)

lemma FillPrimaryKeys_outcome:
  "snd (FillPrimaryKeys seg plan results) = results \<and>
     (plan = None \<or> primary_keys results \<noteq> [] \<or>
      length (seg_offsets results) \<noteq> length (distances results)) \<or>
   length (primary_keys (snd (FillPrimaryKeys seg plan results))) = length (distances results)"
  by (auto simp: FillPrimaryKeys_def Let_def ParsePksFromFieldData_def length_overwrite
      split: option.splits sum.splits)

lemma FillPrimaryKeys_null_plan:
  "\<exists>msg. FillPrimaryKeys seg None results = (Some (AssertFailed msg), results)"
  by (simp add: FillPrimaryKeys_def)

lemma FillPrimaryKeys_second_call:
  assumes "distances results \<noteq> []"
  shows "\<exists>msg. FillPrimaryKeys seg plan (snd (FillPrimaryKeys seg plan results)) =
           (Some (AssertFailed msg), snd (FillPrimaryKeys seg plan results))"
proof -
  let ?r = "snd (FillPrimaryKeys seg plan results)"
  from FillPrimaryKeys_outcome[of seg plan results] show ?thesis
  proof
    assume a: "?r = results \<and> (plan = None \<or> primary_keys results \<noteq> [] \<or>
      length (seg_offsets results) \<noteq> length (distances results))"
    show ?thesis
    proof (cases "plan = None")
      case True
      then show ?thesis using FillPrimaryKeys_null_plan by simp
    next
      case False
      with a have "primary_keys ?r \<noteq> [] \<or> length (seg_offsets ?r) \<noteq> length (distances ?r)"
        by simp
      then show ?thesis by (rule FillPrimaryKeys_fails_early)
    qed
  next
    assume "length (primary_keys ?r) = length (distances results)"
    with assms have "primary_keys ?r \<noteq> []" by auto
    then show ?thesis by (intro FillPrimaryKeys_fails_early) simp
  qed
qed

text \<open>
  Claim C6 says that a second invocation on the same result, without resetting it, fails.
  On a result without rows it does not: the first invocation leaves the primary-key
  container empty, and the second succeeds as the first did.
\<close>

theorem FillPrimaryKeys_twice_on_empty_result:
  "fst (FillPrimaryKeys example_segment (Some (example_plan ''L2'')) empty_result) = None \<and>
   fst (FillPrimaryKeys example_segment (Some (example_plan ''L2''))
          (snd (FillPrimaryKeys example_segment (Some (example_plan ''L2'')) empty_result))) = None"
  by (simp add: FillPrimaryKeys_def example_segment_def example_schema_def empty_result_def
      schema_at_def IsPrimaryKeyDataType_def ParsePksFromFieldData_def overwrite_def Let_def
      long_data_def)

text \<open>
  Claim C6, amended: \<open>FillPrimaryKeys\<close> fails with a failed assertion, the result
  untouched, whenever the primary-key container of the result is not empty or the
  lengths of the offsets and of the distances differ. In particular a second invocation
  on the same result, without resetting it, fails whenever the result has at least one
  row. When an invocation succeeds, the primary keys, the distances and the offsets have
  the same length afterwards.
\<close>

theorem FillPrimaryKeys_preconditions:
  "(primary_keys results \<noteq> [] \<or> length (seg_offsets results) \<noteq> length (distances results) \<longrightarrow>
      (\<exists>msg. FillPrimaryKeys seg plan results = (Some (AssertFailed msg), results))) \<and>
   (distances results \<noteq> [] \<longrightarrow>
      (\<exists>msg. FillPrimaryKeys seg plan (snd (FillPrimaryKeys seg plan results)) =
         (Some (AssertFailed msg), snd (FillPrimaryKeys seg plan results)))) \<and>
   (fst (FillPrimaryKeys seg plan results) = None \<longrightarrow>
      length (primary_keys (snd (FillPrimaryKeys seg plan results))) =
        length (distances (snd (FillPrimaryKeys seg plan results))) \<and>
      length (distances (snd (FillPrimaryKeys seg plan results))) =
        length (seg_offsets (snd (FillPrimaryKeys seg plan results))))"
proof (intro conjI impI)
  assume "primary_keys results \<noteq> [] \<or> length (seg_offsets results) \<noteq> length (distances results)"
  then show "\<exists>msg. FillPrimaryKeys seg plan results = (Some (AssertFailed msg), results)"
    by (rule FillPrimaryKeys_fails_early)
next
  assume "distances results \<noteq> []"
  then show "\<exists>msg. FillPrimaryKeys seg plan (snd (FillPrimaryKeys seg plan results)) =
         (Some (AssertFailed msg), snd (FillPrimaryKeys seg plan results))"
    by (rule FillPrimaryKeys_second_call)
next
  assume "fst (FillPrimaryKeys seg plan results) = None"
  from FillPrimaryKeys_success[OF this]
  show "length (primary_keys (snd (FillPrimaryKeys seg plan results))) =
        length (distances (snd (FillPrimaryKeys seg plan results)))" by simp
next
  assume "fst (FillPrimaryKeys seg plan results) = None"
  from FillPrimaryKeys_success[OF this]
  show "length (distances (snd (FillPrimaryKeys seg plan results))) =
        length (seg_offsets (snd (FillPrimaryKeys seg plan results)))" by simp
qed

lemma two_row_filled:
  "FillPrimaryKeys example_segment (Some (example_plan ''L2'')) two_row_result =
     (None, two_row_result\<lparr>primary_keys := [PkInt 1002, PkInt 1000], pk_type := INT64\<rparr>)"
  by (simp add: FillPrimaryKeys_def example_segment_def example_schema_def two_row_result_def
      schema_at_def IsPrimaryKeyDataType_def ParsePksFromFieldData_def overwrite_def Let_def
      long_data_def)

theorem FillPrimaryKeys_preconditions_witness:
  "FillPrimaryKeys example_segment (Some (example_plan ''L2'')) two_row_result =
     (None, two_row_result\<lparr>primary_keys := [PkInt 1002, PkInt 1000], pk_type := INT64\<rparr>) \<and>
   (\<exists>msg. FillPrimaryKeys example_segment (Some (example_plan ''L2''))
       (two_row_result\<lparr>primary_keys := [PkInt 1002, PkInt 1000], pk_type := INT64\<rparr>) =
     (Some (AssertFailed msg),
      two_row_result\<lparr>primary_keys := [PkInt 1002, PkInt 1000], pk_type := INT64\<rparr>)) \<and>
   (\<exists>msg. FillPrimaryKeys example_segment (Some (example_plan ''L2''))
       (two_row_result\<lparr>seg_offsets := [2]\<rparr>) =
     (Some (AssertFailed msg), two_row_result\<lparr>seg_offsets := [2]\<rparr>)) \<and>
   length (primary_keys (two_row_result\<lparr>primary_keys := [PkInt 1002, PkInt 1000],
                                        pk_type := INT64\<rparr>)) = length (distances two_row_result)"
proof -
  have ne: "distances two_row_result \<noteq> []" by (simp add: two_row_result_def)
  have ok: "fst (FillPrimaryKeys example_segment (Some (example_plan ''L2'')) two_row_result) = None"
    by (simp add: two_row_filled)
  have mis: "length (seg_offsets (two_row_result\<lparr>seg_offsets := [2]\<rparr>)) \<noteq>
             length (distances (two_row_result\<lparr>seg_offsets := [2]\<rparr>))"
    by (simp add: two_row_result_def)
  note first = FillPrimaryKeys_preconditions[of two_row_result example_segment
      "Some (example_plan ''L2'')"]
  from first ne
  have "\<exists>msg. FillPrimaryKeys example_segment (Some (example_plan ''L2''))
         (snd (FillPrimaryKeys example_segment (Some (example_plan ''L2'')) two_row_result)) =
       (Some (AssertFailed msg),
        snd (FillPrimaryKeys example_segment (Some (example_plan ''L2'')) two_row_result))"
    by blast
  moreover from FillPrimaryKeys_preconditions[of "two_row_result\<lparr>seg_offsets := [2]\<rparr>"
      example_segment "Some (example_plan ''L2'')"] mis
  have "\<exists>msg. FillPrimaryKeys example_segment (Some (example_plan ''L2''))
       (two_row_result\<lparr>seg_offsets := [2]\<rparr>) =
     (Some (AssertFailed msg), two_row_result\<lparr>seg_offsets := [2]\<rparr>)"
    by blast
  moreover from first ok
  have "length (primary_keys (snd (FillPrimaryKeys example_segment (Some (example_plan ''L2''))
            two_row_result))) =
        length (distances (snd (FillPrimaryKeys example_segment (Some (example_plan ''L2''))
            two_row_result)))"
    by blast
  ultimately show ?thesis by (simp add: two_row_filled)
qed

subsection \<open>The field-size estimator\<close>

text \<open>
  Within the range of \<^verbatim>\<open>int64_t\<close> and on non-negative sizes the arithmetic of an update
  is exact: the new entry is \<open>(c + n, (c * a + s) div (c + n))\<close>.
\<close>

lemma to_int64_id:
  "- 9223372036854775808 \<le> x \<Longrightarrow> x < 9223372036854775808 \<Longrightarrow> to_int64 x = x"
  by (simp add: to_int64_def)

lemma cpp_div_nonneg: "0 \<le> a \<Longrightarrow> 0 < b \<Longrightarrow> cpp_div a b = a div b"
  by (cases "a = 0") (simp_all add: cpp_div_def)

lemma div_mult_le_int: "0 \<le> x \<Longrightarrow> 0 < (y::int) \<Longrightarrow> y * (x div y) \<le> x"
  by (metis mult.commute div_mult_mod_eq le_add_same_cancel1 pos_mod_sign)

lemma div_mult_ge_int: "0 < (y::int) \<Longrightarrow> x - (y - 1) \<le> y * (x div y)"
proof -
  assume y: "0 < y"
  have "x = y * (x div y) + x mod y" by simp
  moreover have "x mod y < y" using y by simp
  ultimately show ?thesis by linarith
qed

lemma set_field_avg_size_step:
  assumes "0 \<le> fid" and "schema_at (get_schema seg) fid = Inr field_meta"
    and "datatype_is_variable ext (get_data_type field_meta)"
    and "field_info_of seg fid = (c, a)" and "0 \<le> c" and "0 \<le> a"
    and "0 < n" and "0 \<le> s"
    and "c * a + s < 9223372036854775808" and "c + n < 9223372036854775808"
  shows "set_field_avg_size ext seg fid n s =
           Inr (seg\<lparr>variable_fields_avg_size :=
                  (variable_fields_avg_size seg)(fid \<mapsto> (c + n, (c * a + s) div (c + n)))\<rparr>)"
proof -
  have ca: "0 \<le> c * a" using assms(5,6) by simp
  have 1: "to_int64 (c * a) = c * a" using ca assms(8,9) by (intro to_int64_id) linarith+
  have 2: "to_int64 (c * a + s) = c * a + s" using ca assms(8,9) by (intro to_int64_id) linarith+
  have 3: "to_int64 (c + n) = c + n" using assms(5,7,10) by (intro to_int64_id) linarith+
  have pos: "0 < c + n" using assms(5,7) by linarith
  have q: "cpp_div (c * a + s) (c + n) = (c * a + s) div (c + n)"
    using ca assms(8) pos by (intro cpp_div_nonneg) linarith+
  have q0: "0 \<le> (c * a + s) div (c + n)"
    using ca assms(8) pos by (simp add: pos_imp_zdiv_nonneg_iff)
  have "(c + n) * ((c * a + s) div (c + n)) \<le> c * a + s"
    using ca assms(8) pos by (intro div_mult_le_int) linarith+
  moreover have "(c * a + s) div (c + n) \<le> (c + n) * ((c * a + s) div (c + n))"
    using q0 pos by (simp add: mult_le_cancel_right1)
  ultimately have "(c * a + s) div (c + n) < 9223372036854775808"
    using assms(9) by linarith
  then have 4: "to_int64 ((c * a + s) div (c + n)) = (c * a + s) div (c + n)"
    using q0 by (intro to_int64_id) linarith+
  have info: "(case variable_fields_avg_size seg fid of None \<Rightarrow> (0, 0) | Some info \<Rightarrow> info) = (c, a)"
    using assms(4) by (simp add: field_info_of_def)
  show ?thesis
    using assms(1,2,3,7) pos
    by (simp add: set_field_avg_size_def Let_def info 1 2 3 4 q)
qed

text \<open>
  The invariant of a sequence of updates from the entry \<open>(c, a)\<close>: the count grows by the
  rows observed; the product of count and average never exceeds \<open>c * a\<close> plus the bytes
  observed, and falls short of it by at most \<open>count - 1\<close> per batch.
\<close>

lemma observe_batches_bounds:
  assumes "0 \<le> fid" and "schema_at (get_schema seg) fid = Inr field_meta"
    and "datatype_is_variable ext (get_data_type field_meta)"
    and "field_info_of seg fid = (c, a)" and "0 \<le> c" and "0 \<le> a"
    and "\<forall>b \<in> set batches. 0 < fst b \<and> 0 \<le> snd b"
    and "c * a + sum_list (map snd batches) < 9223372036854775808"
    and "c + sum_list (map fst batches) < 9223372036854775808"
  shows "\<exists>seg' a'. observe_batches ext seg fid batches = Inr seg' \<and>
           field_info_of seg' fid = (c + sum_list (map fst batches), a') \<and> 0 \<le> a' \<and>
           (c + sum_list (map fst batches)) * a' \<le> c * a + sum_list (map snd batches) \<and>
           c * a + sum_list (map snd batches) \<le>
             (c + sum_list (map fst batches)) * a' +
             int (length batches) * (c + sum_list (map fst batches) - 1)"
  using assms
proof (induction batches arbitrary: seg c a)
  case Nil
  then show ?case by simp
next
  case (Cons b batches)
  obtain n s where b: "b = (n, s)" by (cases b)
  let ?N = "sum_list (map fst batches)" and ?S = "sum_list (map snd batches)"
  let ?c1 = "c + n" and ?a1 = "(c * a + s) div (c + n)"
  let ?seg1 = "seg\<lparr>variable_fields_avg_size :=
                  (variable_fields_avg_size seg)(fid \<mapsto> (?c1, ?a1))\<rparr>"
  have ns: "0 < n" "0 \<le> s" using Cons.prems(7) b by auto
  have rest: "\<forall>b \<in> set batches. 0 < fst b \<and> 0 \<le> snd b" using Cons.prems(7) by simp
  have N0: "0 \<le> ?N" using rest by (intro sum_list_nonneg) auto
  have S0: "0 \<le> ?S" using rest by (intro sum_list_nonneg) auto
  have ca: "0 \<le> c * a" using Cons.prems(5,6) by simp
  have pos: "0 < ?c1" using Cons.prems(5) ns by linarith
  have b1: "c * a + s < 9223372036854775808" using Cons.prems(8) S0 b by simp
  have b2: "c + n < 9223372036854775808" using Cons.prems(9) N0 b by simp
  have step: "set_field_avg_size ext seg fid n s = Inr ?seg1"
    using Cons.prems(1-6) ns b1 b2 by (rule set_field_avg_size_step)
  have up: "?c1 * ?a1 \<le> c * a + s"
    using ca ns pos by (intro div_mult_le_int) linarith+
  have lo: "c * a + s - (?c1 - 1) \<le> ?c1 * ?a1"
    using pos by (rule div_mult_ge_int)
  have a1: "0 \<le> ?a1" using ca ns pos by (simp add: pos_imp_zdiv_nonneg_iff)
  have sch: "schema_at (get_schema ?seg1) fid = Inr field_meta" using Cons.prems(2) by simp
  have info: "field_info_of ?seg1 fid = (?c1, ?a1)" by (simp add: field_info_of_def)
  have c1: "0 \<le> ?c1" using pos by simp
  have b3: "?c1 * ?a1 + ?S < 9223372036854775808" using up Cons.prems(8) b by simp
  have b4: "?c1 + ?N < 9223372036854775808" using Cons.prems(9) b by simp
  from Cons.IH[OF Cons.prems(1) sch Cons.prems(3) info c1 a1 rest b3 b4]
  obtain seg' a' where r: "observe_batches ext ?seg1 fid batches = Inr seg'"
      "field_info_of seg' fid = (?c1 + ?N, a')" "0 \<le> a'"
      "(?c1 + ?N) * a' \<le> ?c1 * ?a1 + ?S"
      "?c1 * ?a1 + ?S \<le> (?c1 + ?N) * a' + int (length batches) * (?c1 + ?N - 1)"
    by blast
  have k0: "0 \<le> int (length batches) * (?c1 + ?N - 1)" using pos N0 by simp
  have "c * a + (s + ?S) \<le> (?c1 + ?N) * a' + int (length batches) * (?c1 + ?N - 1) + (?c1 + ?N - 1)"
    using r(5) lo N0 by linarith
  also have "\<dots> = (?c1 + ?N) * a' + (int (length batches) + 1) * (?c1 + ?N - 1)"
    by (simp add: algebra_simps)
  finally have lower: "c * a + (s + ?S) \<le>
      (?c1 + ?N) * a' + (int (length batches) + 1) * (?c1 + ?N - 1)" .
  have upper: "(?c1 + ?N) * a' \<le> c * a + (s + ?S)" using r(4) up by linarith
  have obs: "observe_batches ext seg fid (b # batches) = Inr seg'"
    using step r(1) b by simp
  have eqc: "c + sum_list (map fst (b # batches)) = ?c1 + ?N" using b by simp
  have eqs: "sum_list (map snd (b # batches)) = s + ?S" using b by simp
  have eqk: "int (length (b # batches)) = int (length batches) + 1" by simp
  show ?case
    unfolding eqc eqs eqk using obs r(2,3) upper lower by blast
qed

text \<open>
  Claim C5 says that the stored average is the sum of the sizes divided by the sum of the
  row counts, however the rows are split into batches. Four rows of 4 bytes in all,
  observed as the batches (2 rows, 3 bytes) and (2 rows, 1 byte), leave the average 0;
  observed as one batch they leave the average 1, which is \<open>(3 + 1) / (2 + 2)\<close>. The
  division of every update drops its remainder.
\<close>

theorem set_field_avg_size_depends_on_batches:
  "stored_after example_externals example_segment 101 [(2, 3), (2, 1)] = Some (4, 0) \<and>
   stored_after example_externals example_segment 101 [(4, 4)] = Some (4, 1) \<and>
   (3 + 1) div (2 + 2) = (1 :: int)"
  by (simp add: stored_after_def set_field_avg_size_def example_externals_def
      example_segment_def example_schema_def schema_at_def Let_def to_int64_def cpp_div_def)

text \<open>
  Claim C5, amended: for a variable-length field without an entry yet and batches
  \<open>(n1, s1), \<dots>, (nk, sk)\<close> with every \<open>ni > 0\<close> and \<open>si \<ge> 0\<close>, whose sums fit an
  \<^verbatim>\<open>int64_t\<close>, every update computes
  \<open>new_avg = (old_count * old_avg + field_size) div (old_count + num_rows)\<close> with the
  remainder dropped; afterwards the stored count is \<open>n1 + \<dots> + nk\<close> and the stored
  average is at most \<open>(s1 + \<dots> + sk) div (n1 + \<dots> + nk)\<close> and falls short of it by less
  than the number of batches. For a single batch it is equal.
\<close>

theorem set_field_avg_size_running_average:
  assumes "0 \<le> fid" and "schema_at (get_schema seg) fid = Inr field_meta"
    and "datatype_is_variable ext (get_data_type field_meta)"
    and "variable_fields_avg_size seg fid = None"
    and "batches \<noteq> []"
    and "\<forall>b \<in> set batches. 0 < fst b \<and> 0 \<le> snd b"
    and "sum_list (map fst batches) < 9223372036854775808"
    and "sum_list (map snd batches) < 9223372036854775808"
  shows "\<exists>avg. stored_after ext seg fid batches = Some (sum_list (map fst batches), avg) \<and>
           avg \<le> sum_list (map snd batches) div sum_list (map fst batches) \<and>
           sum_list (map snd batches) div sum_list (map fst batches)
             - (int (length batches) - 1) \<le> avg"
proof -
  let ?N = "sum_list (map fst batches)" and ?S = "sum_list (map snd batches)"
  let ?k = "int (length batches)"
  have info: "field_info_of seg fid = (0, 0)" using assms(4) by (simp add: field_info_of_def)
  from observe_batches_bounds[OF assms(1,2,3) info _ _ assms(6)] assms(7,8)
  obtain seg' a' where r: "observe_batches ext seg fid batches = Inr seg'"
      "field_info_of seg' fid = (?N, a')" "0 \<le> a'" "?N * a' \<le> ?S"
      "?S \<le> ?N * a' + ?k * (?N - 1)"
    by auto
  obtain b bs where bb: "batches = b # bs" using assms(5) by (cases batches) auto
  have "0 \<le> sum_list (map fst bs)" using assms(6) bb by (intro sum_list_nonneg) auto
  moreover have "0 < fst b" using assms(6) bb by simp
  ultimately have N: "0 < ?N" using bb by simp
  have k: "1 \<le> ?k" using bb by simp
  have stored: "variable_fields_avg_size seg' fid = Some (?N, a')"
  proof (cases "variable_fields_avg_size seg' fid")
    case None
    with r(2) N show ?thesis by (simp add: field_info_of_def)
  next
    case (Some p)
    with r(2) show ?thesis by (simp add: field_info_of_def)
  qed
  have up: "a' \<le> ?S div ?N"
  proof -
    have "a' = (?N * a') div ?N" using N by simp
    also have "\<dots> \<le> ?S div ?N" using r(4) N by (intro zdiv_mono1) simp_all
    finally show ?thesis .
  qed
  have lo: "?S div ?N - (?k - 1) \<le> a'"
  proof -
    have "?k * (?N - 1) = ?k * ?N - ?k" by (simp add: algebra_simps)
    then have "?k * (?N - 1) < ?k * ?N" using k by linarith
    with r(5) have "?S < ?N * a' + ?k * ?N" by linarith
    moreover have "?N * (a' + ?k) = ?N * a' + ?k * ?N" by (simp add: algebra_simps)
    ultimately have "?S < ?N * (a' + ?k)" by linarith
    moreover have "?N * (?S div ?N) \<le> ?S"
      by (metis N div_mult_mod_eq le_add_same_cancel1 mult.commute pos_mod_sign)
    ultimately have "?N * (?S div ?N) < ?N * (a' + ?k)" by linarith
    then have "?S div ?N < a' + ?k" using N by (simp add: mult_less_cancel_left_pos)
    then show ?thesis by linarith
  qed
  from r(1) stored up lo show ?thesis by (auto simp: stored_after_def)
qed

theorem set_field_avg_size_running_average_witness:
  "\<exists>avg. stored_after example_externals example_segment 101 [(2, 3), (2, 1)] = Some (4, avg) \<and>
     avg \<le> 1 \<and> 0 \<le> avg"
proof -
  have h1: "(0::int) \<le> 101" by simp
  have h2: "schema_at (get_schema example_segment) 101 =
      Inr \<lparr>get_data_type = VARCHAR, get_element_type = NONE, get_sizeof = 0\<rparr>"
    by (simp add: schema_at_def example_segment_def example_schema_def)
  have h3: "datatype_is_variable example_externals
      (get_data_type \<lparr>get_data_type = VARCHAR, get_element_type = NONE, get_sizeof = 0\<rparr>)"
    by (simp add: example_externals_def)
  have h4: "variable_fields_avg_size example_segment 101 = None"
    by (simp add: example_segment_def)
  have h5: "[(2 :: int, 3 :: int), (2, 1)] \<noteq> []" by simp
  have h6: "\<forall>b \<in> set [(2 :: int, 3 :: int), (2, 1)]. 0 < fst b \<and> 0 \<le> snd b" by simp
  have h7: "sum_list (map fst [(2 :: int, 3 :: int), (2, 1)]) < 9223372036854775808" by simp
  have h8: "sum_list (map snd [(2 :: int, 3 :: int), (2, 1)]) < 9223372036854775808" by simp
  from set_field_avg_size_running_average[OF h1 h2 h3 h4 h5 h6 h7 h8] show ?thesis by simp
qed

subsection \<open>The size budget of Retrieve\<close>

text \<open>
  The budget loop computes the projected output size modulo \<open>2^64\<close>, read as an
  \<^verbatim>\<open>int64_t\<close>; the assembly of the result never throws the size-exceeded error.
\<close>

lemma to_int64_to_uint64: "to_int64 (to_uint64 x) = to_int64 x"
  by (simp add: to_int64_def to_uint64_def mod_simps)

lemma to_int64_budget_step:
  "to_int64 (to_uint64 (to_uint64 acc + to_uint64 (to_uint64 avg * r))) = to_int64 (acc + avg * r)"
proof -
  have "(acc mod 18446744073709551616 + (avg mod 18446744073709551616 * r) mod 18446744073709551616)
          mod 18446744073709551616 = (acc + avg * r) mod 18446744073709551616"
    by (simp add: mod_simps)
  then have "to_uint64 (to_uint64 acc + to_uint64 (to_uint64 avg * r)) = to_uint64 (acc + avg * r)"
    by (simp add: to_uint64_def)
  then show ?thesis by (simp add: to_int64_to_uint64)
qed

lemma to_int64_add_left: "to_int64 (to_int64 x + y) = to_int64 (x + y)"
proof -
  have "(x + 9223372036854775808) mod 18446744073709551616 - 9223372036854775808 + y
          + 9223372036854775808
        = (x + 9223372036854775808) mod 18446744073709551616 + y" by simp
  moreover have "((x + 9223372036854775808) mod 18446744073709551616 + y) mod 18446744073709551616
        = (x + 9223372036854775808 + y) mod 18446744073709551616"
    by (simp add: mod_simps)
  ultimately show ?thesis by (simp add: to_int64_def algebra_simps)
qed

lemma sum_field_sizes_wraps:
  assumes "\<forall>fid \<in> set fids. get_field_avg_size ext seg fid = Inr (avg fid)"
  shows "sum_field_sizes ext seg result_rows fids acc =
           Inr (if fids = [] then acc
                else to_int64 (acc + sum_list (map (\<lambda>fid. avg fid * int result_rows) fids)))"
  using assms
proof (induction fids arbitrary: acc)
  case Nil
  then show ?case by simp
next
  case (Cons fid fids)
  then have a: "get_field_avg_size ext seg fid = Inr (avg fid)"
    and r: "\<forall>fid \<in> set fids. get_field_avg_size ext seg fid = Inr (avg fid)" by simp_all
  show ?case
    using Cons.IH[OF r, of "to_int64 (acc + avg fid * int result_rows)"] a
    by (simp add: to_int64_budget_step to_int64_add_left add.assoc)
qed

lemma fill_fields_no_RetrieveError:
  "fst (fill_fields ext seg plan offs fids results calls) \<noteq> Inl RetrieveError"
  by (induction fids arbitrary: results calls)
     (auto simp: Let_def schema_at_def split: sum.splits option.splits)

lemma Retrieve_assemble_no_RetrieveError:
  "fst (Retrieve_assemble ext seg plan retrieve_results) \<noteq> Inl RetrieveError"
  by (simp add: Retrieve_assemble_def fill_fields_no_RetrieveError)

text \<open>
  Claim C3 says that \<open>Retrieve\<close> rejects the request whenever the projected output size
  exceeds the limit. The sum is accumulated in 64 bits: with an average size of \<open>2^62\<close>
  and two matched rows the projected size is \<open>2^63\<close>, the accumulated value is
  \<open>-2^63\<close>, and with the limit 1 the request is accepted and the column is fetched.
\<close>

theorem Retrieve_budget_wraps:
  "get_field_avg_size example_externals
      (example_segment\<lparr>variable_fields_avg_size := [101 \<mapsto> (1, 4611686018427387904)]\<rparr>) 101
     = Inr 4611686018427387904 \<and>
   (1 :: int) < 4611686018427387904 * int (length [0 :: int, 1]) \<and>
   fst (Retrieve example_externals example_visitor
          (example_segment\<lparr>variable_fields_avg_size := [101 \<mapsto> (1, 4611686018427387904)]\<rparr>)
          (example_retrieve_plan [101]) 0 1) \<noteq> Inl RetrieveError \<and>
   snd (Retrieve example_externals example_visitor
          (example_segment\<lparr>variable_fields_avg_size := [101 \<mapsto> (1, 4611686018427387904)]\<rparr>)
          (example_retrieve_plan [101]) 0 1) = [BulkField 101 [0, 1]]"
  by (simp add: Retrieve_def Retrieve_assemble_def example_visitor_def example_retrieve_plan_def
      example_externals_def example_segment_def example_schema_def schema_at_def
      get_field_avg_size_def to_int64_def to_uint64_def Let_def)

text \<open>
  Claim C3, amended: when the plan visitor has returned the matched rows, every requested
  field has an estimated average size and the projected output size fits an
  \<^verbatim>\<open>int64_t\<close>, then \<open>Retrieve\<close> throws the size-exceeded error, without any call of
  \<^verbatim>\<open>bulk_subscript\<close>, whenever the projected size is greater than the limit, and goes on
  to assemble the result, never ending in the size-exceeded error, whenever the projected
  size is at most the limit.
\<close>

theorem Retrieve_size_budget:
  assumes "visitor seg timestamp (retrieve_plan_node plan) = Inr retrieve_results"
    and "\<forall>fid \<in> set (field_ids plan). get_field_avg_size ext seg fid = Inr (avg fid)"
    and "- 9223372036854775808 \<le> projected_size avg plan retrieve_results"
    and "projected_size avg plan retrieve_results < 9223372036854775808"
  shows "(limit_size < projected_size avg plan retrieve_results \<longrightarrow>
            Retrieve ext visitor seg plan timestamp limit_size = (Inl RetrieveError, [])) \<and>
         (projected_size avg plan retrieve_results \<le> limit_size \<longrightarrow>
            Retrieve ext visitor seg plan timestamp limit_size =
              Retrieve_assemble ext seg plan retrieve_results \<and>
            fst (Retrieve ext visitor seg plan timestamp limit_size) \<noteq> Inl RetrieveError)"
proof -
  let ?p = "projected_size avg plan retrieve_results"
  have "sum_field_sizes ext seg (length (result_offsets retrieve_results)) (field_ids plan) 0 =
          Inr (if field_ids plan = [] then 0 else to_int64 (0 + ?p))"
    unfolding projected_size_def using assms(2) by (rule sum_field_sizes_wraps)
  moreover have "to_int64 ?p = ?p" using assms(3,4) by (rule to_int64_id)
  moreover have "field_ids plan = [] \<Longrightarrow> ?p = 0" by (simp add: projected_size_def)
  ultimately have s: "sum_field_sizes ext seg (length (result_offsets retrieve_results))
      (field_ids plan) 0 = Inr ?p"
    by (cases "field_ids plan = []") simp_all
  show ?thesis
    using assms(1) s by (simp add: Retrieve_def Retrieve_assemble_no_RetrieveError)
qed

theorem Retrieve_size_budget_witness:
  "Retrieve example_externals example_visitor
      (example_segment\<lparr>variable_fields_avg_size := [101 \<mapsto> (3, 5)]\<rparr>)
      (example_retrieve_plan [100, 101]) 0 25 = (Inl RetrieveError, []) \<and>
   Retrieve example_externals example_visitor
      (example_segment\<lparr>variable_fields_avg_size := [101 \<mapsto> (3, 5)]\<rparr>)
      (example_retrieve_plan [100, 101]) 0 26 =
     Retrieve_assemble example_externals
      (example_segment\<lparr>variable_fields_avg_size := [101 \<mapsto> (3, 5)]\<rparr>)
      (example_retrieve_plan [100, 101]) \<lparr>result_offsets = [0, 1], field_data = []\<rparr> \<and>
   snd (Retrieve_assemble example_externals
      (example_segment\<lparr>variable_fields_avg_size := [101 \<mapsto> (3, 5)]\<rparr>)
      (example_retrieve_plan [100, 101]) \<lparr>result_offsets = [0, 1], field_data = []\<rparr>)
     = [BulkField 100 [0, 1], BulkField 101 [0, 1]]"
proof -
  let ?seg = "example_segment\<lparr>variable_fields_avg_size := [101 \<mapsto> (3, 5)]\<rparr>"
  let ?plan = "example_retrieve_plan [100, 101]"
  let ?rr = "\<lparr>result_offsets = [0, 1], field_data = []\<rparr>"
  have h1: "example_visitor ?seg 0 (retrieve_plan_node ?plan) = Inr ?rr"
    by (simp add: example_visitor_def)
  have h2: "\<forall>fid \<in> set (field_ids ?plan).
      get_field_avg_size example_externals ?seg fid = Inr (example_avg fid)"
    by (simp add: example_retrieve_plan_def get_field_avg_size_def example_externals_def
        example_segment_def example_schema_def schema_at_def example_avg_def)
  have p: "projected_size example_avg ?plan ?rr = 26"
    by (simp add: projected_size_def example_retrieve_plan_def example_avg_def)
  have h3: "- 9223372036854775808 \<le> projected_size example_avg ?plan ?rr"
    and h4: "projected_size example_avg ?plan ?rr < 9223372036854775808"
    by (simp_all add: p)
  have calls: "snd (Retrieve_assemble example_externals ?seg ?plan ?rr)
     = [BulkField 100 [0, 1], BulkField 101 [0, 1]]"
    by (simp add: Retrieve_assemble_def example_retrieve_plan_def example_externals_def
        example_segment_def example_schema_def schema_at_def Let_def add_int_ids_def)
  from Retrieve_size_budget[where visitor = example_visitor and seg = ?seg and timestamp = 0
        and plan = ?plan and retrieve_results = ?rr and ext = example_externals
        and avg = example_avg and limit_size = 25, OF h1 h2 h3 h4]
    Retrieve_size_budget[where visitor = example_visitor and seg = ?seg and timestamp = 0
        and plan = ?plan and retrieve_results = ?rr and ext = example_externals
        and avg = example_avg and limit_size = 26, OF h1 h2 h3 h4]
    calls
  show ?thesis by (simp add: p)
qed

subsection \<open>get\_real\_count\<close>

text \<open>
  At the latest timestamp every row is visible to the visitor of the specification; on the
  count plan \<open>Retrieve\<close> passes the budget check, whose sum is empty, and returns the
  visitor's column.
\<close>

lemma visible_rows_latest:
  "visible_rows timestamps MAX_TIMESTAMP \<lparr>predicate = None, is_count = c\<rparr> = [0 ..< length timestamps]"
  by (simp add: visible_rows_def MAX_TIMESTAMP_def)

lemma visible_rows_empty: "visible_rows [] timestamp node = []"
  by (simp add: visible_rows_def)

lemma Retrieve_count_plan:
  "Retrieve ext get_retrieve_result seg (count_plan seg) timestamp INT64_MAX =
     (Inr \<lparr>ids = None, offset = [],
           fields_data = [count_column (int (length (visible_rows (get_timestamps seg) timestamp
              \<lparr>predicate = None, is_count = True\<rparr>)))]\<rparr>, [])"
  by (simp add: Retrieve_def Retrieve_assemble_def get_retrieve_result_def count_plan_def
      INT64_MAX_def)

lemma unwrap_count_column:
  "unwrap_count \<lparr>ids = i, offset = offs, fields_data = [count_column cnt]\<rparr> = Inr cnt"
  by (simp add: unwrap_count_def count_column_def)

text \<open>
  Claim C4: \<open>get_real_count\<close> is \<open>Retrieve\<close> on the plan it builds (count only, no
  filter), at the latest timestamp and with the largest budget, followed by the read of
  the only value of the only column. With the plan visitor of the specification that
  value is the number of rows of the segment, whatever its state: at the latest
  timestamp the visibility filter leaves every row visible. On a segment without rows the
  count-only \<open>Retrieve\<close> returns one column with the one value 0.
\<close>

theorem get_real_count_counts_rows:
  "get_real_count ext visitor seg =
     (case fst (Retrieve ext visitor seg (count_plan seg) MAX_TIMESTAMP INT64_MAX) of
        Inl e \<Rightarrow> Inl e
      | Inr res \<Rightarrow> unwrap_count res) \<and>
   retrieve_plan_node (count_plan seg) = \<lparr>predicate = None, is_count = True\<rparr> \<and>
   Retrieve ext get_retrieve_result seg (count_plan seg) MAX_TIMESTAMP INT64_MAX =
     (Inr \<lparr>ids = None, offset = [],
           fields_data = [count_column (int (length (get_timestamps seg)))]\<rparr>, []) \<and>
   get_real_count ext get_retrieve_result seg = Inr (int (length (get_timestamps seg))) \<and>
   (get_timestamps seg \<noteq> [] \<longrightarrow>
      timestamp_filter_dense (get_timestamps seg)
          (replicate (length (get_timestamps seg)) True) MAX_TIMESTAMP =
        Some (Inr (replicate (length (get_timestamps seg)) True))) \<and>
   Retrieve ext get_retrieve_result (seg\<lparr>get_timestamps := []\<rparr>)
       (count_plan (seg\<lparr>get_timestamps := []\<rparr>)) timestamp INT64_MAX =
     (Inr \<lparr>ids = None, offset = [], fields_data = [count_column 0]\<rparr>, [])"
proof -
  have r: "Retrieve ext get_retrieve_result seg (count_plan seg) MAX_TIMESTAMP INT64_MAX =
     (Inr \<lparr>ids = None, offset = [],
           fields_data = [count_column (int (length (get_timestamps seg)))]\<rparr>, [])"
    by (simp add: Retrieve_count_plan visible_rows_latest)
  have c: "get_real_count ext get_retrieve_result seg = Inr (int (length (get_timestamps seg)))"
    by (simp add: get_real_count_def r unwrap_count_column)
  have f: "get_timestamps seg \<noteq> [] \<longrightarrow>
      timestamp_filter_dense (get_timestamps seg)
          (replicate (length (get_timestamps seg)) True) MAX_TIMESTAMP =
        Some (Inr (replicate (length (get_timestamps seg)) True))"
  proof
    assume ne: "get_timestamps seg \<noteq> []"
    have "timestamps_at (get_timestamps seg)
        (int (length (replicate (length (get_timestamps seg)) True)) - 1) =
        Some (get_timestamps seg ! (length (replicate (length (get_timestamps seg)) True) - 1))"
      using ne by (intro timestamps_at_last) simp_all
    then show "timestamp_filter_dense (get_timestamps seg)
          (replicate (length (get_timestamps seg)) True) MAX_TIMESTAMP =
        Some (Inr (replicate (length (get_timestamps seg)) True))"
      by (simp add: timestamp_filter_dense_def MAX_TIMESTAMP_def)
  qed
  have e: "Retrieve ext get_retrieve_result (seg\<lparr>get_timestamps := []\<rparr>)
       (count_plan (seg\<lparr>get_timestamps := []\<rparr>)) timestamp INT64_MAX =
     (Inr \<lparr>ids = None, offset = [], fields_data = [count_column 0]\<rparr>, [])"
    by (simp add: Retrieve_count_plan visible_rows_empty)
  have d: "get_real_count ext visitor seg =
     (case fst (Retrieve ext visitor seg (count_plan seg) MAX_TIMESTAMP INT64_MAX) of
        Inl e \<Rightarrow> Inl e
      | Inr res \<Rightarrow> unwrap_count res)"
    by (simp add: get_real_count_def)
  have p: "retrieve_plan_node (count_plan seg) = \<lparr>predicate = None, is_count = True\<rparr>"
    by (simp add: count_plan_def)
  from d p r c f e show ?thesis by blast
qed

theorem get_real_count_counts_rows_witness:
  "get_real_count example_externals get_retrieve_result example_segment = Inr 3 \<and>
   timestamp_filter_dense [10, 20, 30] [True, True, True] MAX_TIMESTAMP =
     Some (Inr [True, True, True]) \<and>
   get_real_count example_externals get_retrieve_result
     (example_segment\<lparr>get_timestamps := []\<rparr>) = Inr 0"
proof -
  have ts: "get_timestamps example_segment = [10, 20, 30]" by (simp add: example_segment_def)
  have rep: "replicate (length [10, 20, 30 :: Timestamp]) True = [True, True, True]"
    by (simp add: numeral_3_eq_3)
  note full = get_real_count_counts_rows[of example_externals get_retrieve_result example_segment 0]
  note empty = get_real_count_counts_rows[of example_externals get_retrieve_result
      "example_segment\<lparr>get_timestamps := []\<rparr>" 0]
  have a: "get_real_count example_externals get_retrieve_result example_segment = Inr 3"
    using full[THEN conjunct2, THEN conjunct2, THEN conjunct2, THEN conjunct1]
    by (simp add: ts)
  have b: "timestamp_filter_dense [10, 20, 30] [True, True, True] MAX_TIMESTAMP =
     Some (Inr [True, True, True])"
    using full[THEN conjunct2, THEN conjunct2, THEN conjunct2, THEN conjunct2, THEN conjunct1]
    by (simp add: ts rep)
  have c: "get_real_count example_externals get_retrieve_result
     (example_segment\<lparr>get_timestamps := []\<rparr>) = Inr 0"
    using empty[THEN conjunct2, THEN conjunct2, THEN conjunct2, THEN conjunct1]
    by simp
  from a b c show ?thesis by blast
qed

end
